theory Spec2Isabelle
  imports Complex_Main "HOL-Library.Log_Nat" "HOL-Library.Sublist"
begin

section \<open>Python exceptions\<close>

text \<open>
  Every \<^verbatim>\<open>raise\<close> and every failing \<^verbatim>\<open>assert\<close> of the modelled code is a value of
  this type; a function that can raise returns \<open>error + 'a\<close> with \<open>Inl\<close> for the exception.
  Exceptions that carry a message keep it, since two \<^verbatim>\<open>RuntimeError\<close>s of the program differ
  only by their message.
\<close>

datatype error =
    RuntimeError string
  | EnvironmentError string
  | AssertionError string
  | ValueError string
  | AttributeError string
  | NameError string
  | TypeError string
  | KeyError
  | ZeroDivisionError

section \<open>Drawable nodes: \<^verbatim>\<open>BaseSprite\<close> and \<^verbatim>\<open>ImageSprite\<close> (use_update_dirty_on_event.py)\<close>

subsection \<open>Skins and images\<close>

text \<open>
  The argument of \<^verbatim>\<open>set_skin\<close> and the value of \<^verbatim>\<open>_image_orig\<close>. \<open>SNone\<close> is Python's
  \<^verbatim>\<open>None\<close>. A colour is a tuple or a list of integers. A PIL image is identified by its
  contents (PIL defines \<^verbatim>\<open>__eq__\<close> on mode, size and pixel data). A pygame surface is an
  object with an identity (first component) and pixel contents (second component): pygame
  defines no \<^verbatim>\<open>__eq__\<close> on surfaces, so Python compares them by identity.
\<close>

datatype skin =
    SNone
  | SStr string
  | STuple "int list"
  | SList "int list"
  | SPIL nat
  | SSurface nat nat

text \<open>Python's \<^verbatim>\<open>!=\<close> on two skins.\<close>

fun py_ne :: "skin \<Rightarrow> skin \<Rightarrow> bool" where
  "py_ne (SSurface i p) (SSurface j q) = (i \<noteq> j)"
| "py_ne a b = (a \<noteq> b)"

text \<open>Python's truth value of a skin (\<^verbatim>\<open>if skin:\<close>).\<close>

fun py_truthy :: "skin \<Rightarrow> bool" where
  "py_truthy SNone = False"
| "py_truthy (SStr s) = (s \<noteq> [])"
| "py_truthy (STuple xs) = (xs \<noteq> [])"
| "py_truthy (SList xs) = (xs \<noteq> [])"
| "py_truthy (SPIL c) = True"
| "py_truthy (SSurface i p) = True"

text \<open>
  Pixel operations of pygame are not computed. A rendered image is identified by the call
  that produced it: \<open>Filled size colour\<close> is \<^verbatim>\<open>pygame.Surface(size)\<close> after
  \<^verbatim>\<open>fill(colour)\<close>, and \<open>Transformed src size hflip vflip angle crop colour\<close> is the result
  of \<^verbatim>\<open>transform_pygame_image(surface, size, hflip=.., vflip=.., angle=.., crop=.., color=..)\<close>
  on the pixels \<open>src\<close>. \<open>Raw src size\<close> is \<^verbatim>\<open>pygame.image.frombuffer\<close> of the
  pixels \<open>src\<close>.
\<close>

datatype pixels = FromPIL nat | FromSurface nat

datatype image =
    Filled "int \<times> int" "int list"
  | Raw pixels "int \<times> int"
  | Transformed pixels "int \<times> int" bool bool int bool "int list option"

definition transform_pygame_image ::
  "pixels \<Rightarrow> int \<times> int \<Rightarrow> bool \<Rightarrow> bool \<Rightarrow> int \<Rightarrow> bool \<Rightarrow> int list option \<Rightarrow> image" where
  "transform_pygame_image surface sz hf vf ang crp col = Transformed surface sz hf vf ang crp col"

subsection \<open>The node state\<close>

text \<open>
  The attributes of one sprite. \<open>rect_topleft\<close> and \<open>rect_size\<close> are the \<^verbatim>\<open>pygame.Rect\<close>
  (integers); \<open>dirty\<close> and \<open>visible\<close> are the integer flags of \<^verbatim>\<open>pygame.sprite.DirtySprite\<close>
  (both 1 after construction). The sub-sprites are the children in \<open>node\<close> below; the
  \<^verbatim>\<open>parent\<close> back reference and the \<^verbatim>\<open>on_pressed\<close> callback are not part of the state.
\<close>

record sprite =
  image_cache :: "image option"
  rect_topleft :: "int \<times> int"
  rect_size :: "int \<times> int"
  color :: "int list option"
  pressed :: int
  layer :: "int option"
  dirty :: int
  visible :: int
  image_orig :: skin
  path :: "string option"
  crop :: bool
  hflip :: bool
  vflip :: bool
  angle :: int
  colorize :: bool

definition set_dirty :: "sprite \<Rightarrow> bool \<Rightarrow> sprite" where
  "set_dirty s redraw =
     (let s1 = s\<lparr>dirty := 1\<rparr> in if redraw then s1\<lparr>image_cache := None\<rparr> else s1)"

text \<open>
  A \<^verbatim>\<open>pygame.Rect\<close> stores C integers of 32 bits: assigning a coordinate or a size outside
  this range raises \<^verbatim>\<open>TypeError\<close> and assigns nothing.
\<close>

definition in_c_int :: "int \<Rightarrow> bool" where
  "in_c_int v = (- (2 ^ 31) \<le> v \<and> v < 2 ^ 31)"

text \<open>
  \<^verbatim>\<open>set_rect(x, y, width, height)\<close>, on integer arguments (the docstring types all four as
  \<^verbatim>\<open>int\<close>, so \<^verbatim>\<open>int(x)\<close> is \<^verbatim>\<open>x\<close>). The two assertions come first. The assignment of
  the size can raise after the position has been assigned and the dirty flag set, so an
  exception comes with the state of the sprite at that moment.
\<close>

definition set_rect :: "sprite \<Rightarrow> int \<Rightarrow> int \<Rightarrow> int \<Rightarrow> int \<Rightarrow> error \<times> sprite + sprite" where
  "set_rect s x y width height =
     (if \<not> 0 < width then Inl (AssertionError ''Sprite width shall be greater than zero'', s)
      else if \<not> 0 < height
      then Inl (AssertionError ''Sprite height shall be greater than zero'', s)
      else if rect_topleft s \<noteq> (x, y) \<and> \<not> (in_c_int x \<and> in_c_int y)
      then Inl (TypeError ''invalid rect assignment'', s)
      else
        let s1 = (if rect_topleft s \<noteq> (x, y)
                  then set_dirty (s\<lparr>rect_topleft := (x, y)\<rparr>) False else s)
        in if rect_size s1 \<noteq> (width, height) \<and> \<not> (in_c_int width \<and> in_c_int height)
           then Inl (TypeError ''invalid rect assignment'', s1)
           else
             let s2 = (if rect_size s1 \<noteq> (width, height)
                       then set_dirty (s1\<lparr>rect_size := (width, height)\<rparr>) True else s1)
             in Inr s2)"

text \<open>\<^verbatim>\<open>set_color(color)\<close> of \<^verbatim>\<open>BaseSprite\<close>.\<close>

definition set_color :: "sprite \<Rightarrow> int list option \<Rightarrow> sprite" where
  "set_color s c = (if c \<noteq> color s then set_dirty (s\<lparr>color := c\<rparr>) True else s)"

text \<open>
  \<^verbatim>\<open>set_skin(skin)\<close>: the three \<^verbatim>\<open>isinstance\<close> branches. Anything that is neither a string
  nor a tuple or list must be a PIL image or a pygame surface, by assertion; \<^verbatim>\<open>None\<close> is not.
\<close>

fun set_skin :: "sprite \<Rightarrow> skin \<Rightarrow> error + sprite" where
  "set_skin s (SStr p) =
     (if Some p \<noteq> path s
      then Inr (set_dirty (s\<lparr>path := Some p, image_orig := SNone\<rparr>) True) else Inr s)"
| "set_skin s (STuple xs) =
     (if length xs \<noteq> 3 then Inl (AssertionError ''Length of 3 is required for RGB tuple'')
      else if py_ne (STuple xs) (image_orig s)
      then Inr (set_dirty (s\<lparr>path := None, image_orig := STuple xs\<rparr>) True) else Inr s)"
| "set_skin s (SList xs) =
     (if length xs \<noteq> 3 then Inl (AssertionError ''Length of 3 is required for RGB tuple'')
      else if py_ne (SList xs) (image_orig s)
      then Inr (set_dirty (s\<lparr>path := None, image_orig := SList xs\<rparr>) True) else Inr s)"
| "set_skin s SNone = Inl (AssertionError ''PIL Image or Pygame Surface is required'')"
| "set_skin s sk =
     (if py_ne sk (image_orig s)
      then Inr (set_dirty (s\<lparr>path := None, image_orig := sk\<rparr>) True) else Inr s)"

definition set_crop :: "sprite \<Rightarrow> bool \<Rightarrow> sprite" where
  "set_crop s c = (if c \<noteq> crop s then set_dirty (s\<lparr>crop := c\<rparr>) True else s)"

text \<open>\<^verbatim>\<open>set_flip(hflip=None, vflip=None)\<close>: an argument that is \<^verbatim>\<open>None\<close> is skipped.\<close>

definition set_flip :: "sprite \<Rightarrow> bool option \<Rightarrow> bool option \<Rightarrow> sprite" where
  "set_flip s hf vf =
     (let s1 = (case hf of None \<Rightarrow> s
                | Some h \<Rightarrow> if h \<noteq> hflip s then set_dirty (s\<lparr>hflip := h\<rparr>) True else s);
          s2 = (case vf of None \<Rightarrow> s1
                | Some v \<Rightarrow> if v \<noteq> vflip s1 then set_dirty (s1\<lparr>vflip := v\<rparr>) True else s1)
      in s2)"

definition set_angle :: "sprite \<Rightarrow> int \<Rightarrow> sprite" where
  "set_angle s a = (if a \<noteq> angle s then set_dirty (s\<lparr>angle := a\<rparr>) True else s)"

subsection \<open>Rendering\<close>

text \<open>
  \<^verbatim>\<open>ImageSprite.draw\<close>. The helper \<^verbatim>\<open>load_pygame_image\<close> is called but defined nowhere in
  the repository, so it is the parameter \<open>load\<close>: it returns a surface (identity and pixels)
  or raises. \<^verbatim>\<open>draw\<close> stores a loaded surface in \<^verbatim>\<open>_image_orig\<close>, so it returns the state too.
  A string in \<^verbatim>\<open>_image_orig\<close> cannot arise (\<^verbatim>\<open>set_skin\<close> never stores one); the last branch
  of the source would then fail on \<^verbatim>\<open>surface.get_size()\<close>.
\<close>

definition draw :: "(string \<Rightarrow> error + nat \<times> nat) \<Rightarrow> sprite \<Rightarrow> error + image \<times> sprite" where
  "draw load s =
     (case (if image_orig s = SNone
            then (case path s of
                    None \<Rightarrow> Inl (ValueError ''Path to image is missing'')
                  | Some p \<Rightarrow>
                      if p = [] then Inl (ValueError ''Path to image is missing'')
                      else (case load p of
                              Inl e \<Rightarrow> Inl e
                            | Inr (i, px) \<Rightarrow> Inr (s\<lparr>image_orig := SSurface i px\<rparr>)))
            else Inr s) of
        Inl e \<Rightarrow> Inl e
      | Inr s1 \<Rightarrow>
          (case image_orig s1 of
             STuple c \<Rightarrow> Inr (Filled (rect_size s1) c, s1)
           | SList c \<Rightarrow> Inr (Filled (rect_size s1) c, s1)
           | SPIL c \<Rightarrow>
               Inr (transform_pygame_image (FromPIL c) (rect_size s1) (hflip s1) (vflip s1)
                      (angle s1) (crop s1) (if colorize s1 then color s1 else None), s1)
           | SSurface i px \<Rightarrow>
               Inr (transform_pygame_image (FromSurface px) (rect_size s1) (hflip s1) (vflip s1)
                      (angle s1) (crop s1) (if colorize s1 then color s1 else None), s1)
           | _ \<Rightarrow> Inl (AttributeError ''get_size'')))"

text \<open>
  The \<^verbatim>\<open>image\<close> property: the cached image if there is one, else the result of
  \<^verbatim>\<open>draw()\<close>, which is stored in \<^verbatim>\<open>_image_cache\<close>. It returns the image and the state.
\<close>

definition image_prop :: "(string \<Rightarrow> error + nat \<times> nat) \<Rightarrow> sprite \<Rightarrow> error + image \<times> sprite" where
  "image_prop load s =
     (case image_cache s of
        Some img \<Rightarrow> Inr (img, s)
      | None \<Rightarrow>
          (case draw load s of
             Inl e \<Rightarrow> Inl e
           | Inr (img, s1) \<Rightarrow> Inr (img, s1\<lparr>image_cache := Some img\<rparr>)))"

text \<open>
  The constructor \<^verbatim>\<open>ImageSprite(parent, skin, colorize, size=.., layer=..)\<close>:
  \<^verbatim>\<open>BaseSprite.__init__\<close>, the defaults of \<^verbatim>\<open>ImageSprite\<close>, then \<^verbatim>\<open>set_skin\<close> if the skin
  is truthy.
\<close>

definition ImageSprite_init :: "skin \<Rightarrow> bool \<Rightarrow> int \<times> int \<Rightarrow> int \<Rightarrow> error + sprite" where
  "ImageSprite_init sk colz sz lay =
     (let s = \<lparr>image_cache = None, rect_topleft = (0, 0), rect_size = sz, color = None,
                pressed = 0, layer = Some lay, dirty = 1, visible = 1, image_orig = SNone,
                path = None, crop = False, hflip = False, vflip = False, angle = 0,
                colorize = colz\<rparr>
      in if py_truthy sk then set_skin s sk else Inr s)"

text \<open>
  The operations of a node as data, to run sequences of them. A call that raises leaves the
  node as it was (each assertion comes before any assignment, and \<^verbatim>\<open>draw\<close> assigns only
  after the loader has returned), except \<^verbatim>\<open>set_rect\<close>, which leaves the node as it was
  when the exception was raised; the caller goes on.
\<close>

datatype sprite_op =
    SetRect int int int int
  | SetSkin skin
  | SetColor "int list option"
  | SetFlip "bool option" "bool option"
  | SetAngle int
  | SetCrop bool
  | Render

fun apply_sprite_op :: "(string \<Rightarrow> error + nat \<times> nat) \<Rightarrow> sprite \<Rightarrow> sprite_op \<Rightarrow> sprite" where
  "apply_sprite_op load s (SetRect x y w h) =
     (case set_rect s x y w h of Inl (e, s') \<Rightarrow> s' | Inr s' \<Rightarrow> s')"
| "apply_sprite_op load s (SetSkin sk) = (case set_skin s sk of Inl e \<Rightarrow> s | Inr s' \<Rightarrow> s')"
| "apply_sprite_op load s (SetColor c) = set_color s c"
| "apply_sprite_op load s (SetFlip hf vf) = set_flip s hf vf"
| "apply_sprite_op load s (SetAngle a) = set_angle s a"
| "apply_sprite_op load s (SetCrop c) = set_crop s c"
| "apply_sprite_op load s Render = (case image_prop load s of Inl e \<Rightarrow> s | Inr (img, s') \<Rightarrow> s')"

text \<open>
  The cache is coherent when it is empty or holds what \<^verbatim>\<open>draw()\<close> would compute now.
\<close>

definition cache_coherent :: "(string \<Rightarrow> error + nat \<times> nat) \<Rightarrow> sprite \<Rightarrow> bool" where
  "cache_coherent load s =
     (case image_cache s of None \<Rightarrow> True | Some img \<Rightarrow> draw load s = Inr (img, s))"

subsection \<open>The tree of sub-sprites: \<^verbatim>\<open>show\<close> and \<^verbatim>\<open>hide\<close>\<close>

text \<open>
  A node with its \<^verbatim>\<open>_subsprites\<close>. \<^verbatim>\<open>add_sprite\<close> appends a sprite to the list of its direct
  parent only, and a sprite gets its parent at construction, so the object graph is a tree.
\<close>

datatype node = Node sprite "node list"

text \<open>
  Assigning \<^verbatim>\<open>visible\<close> goes through the property setter of \<^verbatim>\<open>pygame.sprite.DirtySprite\<close>,
  which also sets \<^verbatim>\<open>dirty\<close> to 1 unless it is 2 or more.
\<close>

definition set_visible :: "sprite \<Rightarrow> int \<Rightarrow> sprite" where
  "set_visible s v = (let s1 = s\<lparr>visible := v\<rparr> in if dirty s1 < 2 then s1\<lparr>dirty := 1\<rparr> else s1)"

fun "show" :: "node \<Rightarrow> node" where
  "show (Node s subs) =
     (if visible s = 0 then Node (set_visible s 1) (map show subs) else Node s subs)"

fun hide :: "node \<Rightarrow> node" where
  "hide (Node s subs) =
     (if visible s \<noteq> 0 then Node (set_visible s 0) (map hide subs) else Node s subs)"

text \<open>\<^verbatim>\<open>get_sprites(recursive=True)\<close>: the direct sub-sprites, then the descendants of each.\<close>

fun get_sprites_rec :: "node \<Rightarrow> node list" where
  "get_sprites_rec (Node s subs) = subs @ concat (map get_sprites_rec subs)"

fun node_visible :: "node \<Rightarrow> bool" where
  "node_visible (Node s subs) = (visible s \<noteq> 0)"

text \<open>A node and all its descendants are visible, or all hidden.\<close>

fun all_visible :: "node \<Rightarrow> bool" where
  "all_visible (Node s subs) = (visible s \<noteq> 0 \<and> list_all all_visible subs)"

fun all_hidden :: "node \<Rightarrow> bool" where
  "all_hidden (Node s subs) = (visible s = 0 \<and> list_all all_hidden subs)"

text \<open>
  The descendant of a node at a path: the path lists, from the node down, the index of each
  sub-sprite taken. The empty path is the node itself.
\<close>

fun subnode :: "node \<Rightarrow> nat list \<Rightarrow> node option" where
  "subnode n [] = Some n"
| "subnode (Node s subs) (i # p) = (if i < length subs then subnode (subs ! i) p else None)"

text \<open>
  Every node on the path strictly above its end is hidden (is visible): the node the path
  starts from and all the nodes between it and the descendant the path leads to.
\<close>

fun hidden_chain :: "node \<Rightarrow> nat list \<Rightarrow> bool" where
  "hidden_chain n [] = True"
| "hidden_chain (Node s subs) (i # p) =
     (visible s = 0 \<and> i < length subs \<and> hidden_chain (subs ! i) p)"

fun visible_chain :: "node \<Rightarrow> nat list \<Rightarrow> bool" where
  "visible_chain n [] = True"
| "visible_chain (Node s subs) (i # p) =
     (visible s \<noteq> 0 \<and> i < length subs \<and> visible_chain (subs ! i) p)"

section \<open>Tasks and the task pool (utils.py)\<close>

subsection \<open>Events\<close>

text \<open>
  A pygame event: its type, the \<^verbatim>\<open>key\<close> attribute of a keyboard event, and the \<^verbatim>\<open>result\<close>
  and \<^verbatim>\<open>exception\<close> attributes that \<^verbatim>\<open>AsyncTask.emit\<close> gives to the events it posts.
  \<open>None\<close> is Python's \<^verbatim>\<open>None\<close> (for \<open>key\<close>: no such attribute). An exception is
  identified by its text.
\<close>

record 'r event =
  etype :: nat
  key :: "nat option"
  result :: "'r option"
  exception :: "string option"

text \<open>The constants of pygame 2 that the program uses.\<close>

definition KEYDOWN :: nat where "KEYDOWN = 768"
definition K_SPACE :: nat where "K_SPACE = 32"
definition USEREVENT :: nat where "USEREVENT = 32768"
definition CAM_EVENT :: nat where "CAM_EVENT = USEREVENT + 201"

subsection \<open>\<^verbatim>\<open>AsyncTask\<close>\<close>

text \<open>
  One call of the runnable returns a value (possibly \<^verbatim>\<open>None\<close>) or raises an
  \<^verbatim>\<open>Exception\<close>. The runnable is given by the outcome of its \<open>n\<close>-th call, and the stop
  event (set by \<^verbatim>\<open>kill\<close> from another thread) by what \<^verbatim>\<open>is_set()\<close> answers at the loop
  test before the \<open>n\<close>-th call.
\<close>

datatype 'r outcome = Returns "'r option" | Raises string

record 'r task =
  runnable :: "nat \<Rightarrow> 'r outcome"
  stop_is_set :: "nat \<Rightarrow> bool"
  event_type :: "nat option"
  loop :: bool

text \<open>\<^verbatim>\<open>emit(data, exception=None)\<close>, on the event queue of pygame.\<close>

definition emit :: "'r task \<Rightarrow> 'r option \<Rightarrow> string option \<Rightarrow> 'r event list \<Rightarrow> 'r event list" where
  "emit t data exc q =
     (case event_type t of
        None \<Rightarrow> q
      | Some k \<Rightarrow> q @ [\<lparr>etype = k, key = None, result = data, exception = exc\<rparr>])"





definition camera_task :: "nat task" where
  "camera_task =
     \<lparr>runnable = (\<lambda>i. if i < 2 then Returns (Some i) else Raises ''capture failed''),
      stop_is_set = (\<lambda>i. False), event_type = Some CAM_EVENT, loop = True\<rparr>"

subsection \<open>\<^verbatim>\<open>AsyncTasksPool\<close>\<close>

text \<open>
  The \<^verbatim>\<open>ThreadPoolExecutor\<close> and the attribute \<^verbatim>\<open>stop_event\<close> that the pool hangs on it.
  \<open>stop_event\<close> is \<^verbatim>\<open>stop_event.is_set()\<close>; \<open>shut_down\<close> is the executor's own flag, set
  by \<^verbatim>\<open>shutdown()\<close>.
\<close>

record executor =
  stop_event :: bool
  shut_down :: bool

text \<open>
  \<^verbatim>\<open>Executor.submit\<close> of the standard library: after \<^verbatim>\<open>shutdown()\<close> it raises
  \<^verbatim>\<open>RuntimeError('cannot schedule new futures after shutdown')\<close>.
\<close>

definition executor_submit :: "executor \<Rightarrow> error + unit" where
  "executor_submit ex =
     (if shut_down ex then Inl (RuntimeError ''cannot schedule new futures after shutdown'')
      else Inr ())"

text \<open>
  The class attributes: \<^verbatim>\<open>AsyncTask.POOL\<close> (\<open>None\<close>, or the first pool object, given by the
  executor it holds: every later pool object takes \<^verbatim>\<open>AsyncTask.POOL._pool\<close>, so there is one
  executor) and the dictionary \<^verbatim>\<open>AsyncTasksPool.FUTURES\<close> from futures to tasks, in insertion
  order. Futures are numbered as they are created.
\<close>

record 'r world =
  POOL :: "executor option"
  FUTURES :: "(nat \<times> 'r task) list"
  next_future :: nat

text \<open>
  \<^verbatim>\<open>AsyncTasksPool.__init__\<close>: the executor is created or shared, and then, in both cases,
  a new \<^verbatim>\<open>threading.Event()\<close> is assigned to its \<^verbatim>\<open>stop_event\<close>.
\<close>

definition AsyncTasksPool_init :: "'r world \<Rightarrow> 'r world" where
  "AsyncTasksPool_init w =
     (let ex = (case POOL w of
                  None \<Rightarrow> \<lparr>stop_event = False, shut_down = False\<rparr>
                | Some ex \<Rightarrow> ex)
      in w\<lparr>POOL := Some (ex\<lparr>stop_event := False\<rparr>)\<rparr>)"

text \<open>\<^verbatim>\<open>start_task(task)\<close> on a pool object whose executor is \<open>ex\<close>; \<open>fut\<close> is the new future.\<close>

definition start_task ::
  "executor \<Rightarrow> (nat \<times> 'r task) list \<Rightarrow> nat \<Rightarrow> 'r task \<Rightarrow> error + nat \<times> (nat \<times> 'r task) list" where
  "start_task ex futs fut task =
     (if stop_event ex then Inl (RuntimeError ''AsyncTasksPool is shutting down'')
      else (case executor_submit ex of
              Inl e \<Rightarrow> Inl e
            | Inr u \<Rightarrow> Inr (fut, futs @ [(fut, task)])))"

text \<open>
  \<^verbatim>\<open>AsyncTask.__init__\<close>, which is how a task is submitted: it needs \<^verbatim>\<open>AsyncTask.POOL\<close> and
  calls its \<^verbatim>\<open>start_task\<close>.
\<close>

definition AsyncTask_init :: "'r world \<Rightarrow> 'r task \<Rightarrow> error + nat \<times> 'r world" where
  "AsyncTask_init w task =
     (case POOL w of
        None \<Rightarrow> Inl (EnvironmentError ''Tasks pool is not initialized.'')
      | Some ex \<Rightarrow>
          (case start_task ex (FUTURES w) (next_future w) task of
             Inl e \<Rightarrow> Inl e
           | Inr (fut, futs) \<Rightarrow> Inr (fut, w\<lparr>FUTURES := futs, next_future := Suc (next_future w)\<rparr>)))"

text \<open>\<^verbatim>\<open>finish_task(future)\<close>: \<^verbatim>\<open>FUTURES.pop(future)\<close>, a \<^verbatim>\<open>KeyError\<close> if it is not there.\<close>

definition finish_task :: "'r world \<Rightarrow> nat \<Rightarrow> error + 'r world" where
  "finish_task w fut =
     (if fut \<in> fst ` set (FUTURES w)
      then Inr (w\<lparr>FUTURES := filter (\<lambda>(f, t). f \<noteq> fut) (FUTURES w)\<rparr>)
      else Inl KeyError)"

text \<open>
  \<^verbatim>\<open>quit()\<close> on a pool object (so a pool exists): the stop event is set, every tracked task
  is killed, the dictionary is cleared and the executor is shut down.
\<close>

definition AsyncTasksPool_quit :: "'r world \<Rightarrow> 'r world" where
  "AsyncTasksPool_quit w =
     (case POOL w of
        None \<Rightarrow> w
      | Some ex \<Rightarrow> w\<lparr>POOL := Some (ex\<lparr>stop_event := True, shut_down := True\<rparr>), FUTURES := []\<rparr>)"

text \<open>
  The operations on the pool as data. A call that raises has assigned nothing before, and
  leaves the world as it was.
\<close>

datatype 'r pool_op = NewPool | Submit "'r task" | Finish nat | Quit

fun pool_step :: "'r world \<Rightarrow> 'r pool_op \<Rightarrow> 'r world" where
  "pool_step w NewPool = AsyncTasksPool_init w"
| "pool_step w (Submit t) = (case AsyncTask_init w t of Inl e \<Rightarrow> w | Inr (fut, w') \<Rightarrow> w')"
| "pool_step w (Finish fut) = (case finish_task w fut of Inl e \<Rightarrow> w | Inr w' \<Rightarrow> w')"
| "pool_step w Quit = AsyncTasksPool_quit w"

definition is_shut_down :: "'r world \<Rightarrow> bool" where
  "is_shut_down w = (case POOL w of None \<Rightarrow> False | Some ex \<Rightarrow> shut_down ex)"

definition stop_flag :: "'r world \<Rightarrow> bool" where
  "stop_flag w = (case POOL w of None \<Rightarrow> False | Some ex \<Rightarrow> stop_event ex)"

definition no_pool :: "nat world" where
  "no_pool = \<lparr>POOL = None, FUTURES = [], next_future = 0\<rparr>"

section \<open>The consumer: \<^verbatim>\<open>Game.update\<close>\<close>

text \<open>
  The display: the \<^verbatim>\<open>screen.blit(surface, position)\<close> calls and the
  \<^verbatim>\<open>pygame.display.update(rects)\<close> calls made so far, and the size of the screen.
  A rectangle is \<open>(x, y, w, h)\<close>.
\<close>

record display =
  blits :: "(image \<times> int \<times> int) list"
  updates :: "(int \<times> int \<times> int \<times> int) list list"
  screen_size :: "int \<times> int"

text \<open>
  \<^verbatim>\<open>surface.get_rect(center=screen.get_rect().center)\<close> for a surface of size \<open>(w, h)\<close>:
  pygame computes centres with integer division.
\<close>

definition centered_rect :: "int \<times> int \<Rightarrow> int \<times> int \<Rightarrow> int \<times> int \<times> int \<times> int" where
  "centered_rect sz scr = (fst scr div 2 - fst sz div 2, snd scr div 2 - snd sz div 2, fst sz, snd sz)"

text \<open>
  \<^verbatim>\<open>image2surface(image, size)\<close> of use_update_on_event.py. It starts with
  \<^verbatim>\<open>image.tobytes()\<close>, which \<^verbatim>\<open>None\<close> does not have.
\<close>

fun image2surface :: "nat option \<Rightarrow> int \<times> int \<Rightarrow> error + image" where
  "image2surface None sz = Inl (AttributeError ''tobytes'')"
| "image2surface (Some c) sz =
     Inr (transform_pygame_image (FromPIL c) sz False False 0 False None)"

text \<open>
  The game of use_update_on_event.py. The camera is outside the program: \<open>still_capture\<close> are
  the pixels that \<^verbatim>\<open>switch_mode_and_capture_image\<close> returns and \<open>sensor_resolution\<close> their
  size.
\<close>

record game =
  preview_size :: "int \<times> int"
  display_size :: "int \<times> int"
  still_capture :: nat
  sensor_resolution :: "int \<times> int"

text \<open>The branch of the space key: the capture is painted at the origin and presented.\<close>

definition show_capture :: "game \<Rightarrow> display \<Rightarrow> display" where
  "show_capture g scr =
     (let surface = Raw (FromPIL (still_capture g)) (sensor_resolution g);
          rect = (0, 0, fst (sensor_resolution g), snd (sensor_resolution g))
      in scr\<lparr>blits := blits scr @ [(surface, 0, 0)], updates := updates scr @ [[rect]]\<rparr>)"

text \<open>The \<^verbatim>\<open>for event in events\<close> loop of \<^verbatim>\<open>Game.update\<close>, with the list \<^verbatim>\<open>dirty_rects\<close>.\<close>

fun update_events ::
  "game \<Rightarrow> display \<Rightarrow> (int \<times> int \<times> int \<times> int) list \<Rightarrow> nat event list
     \<Rightarrow> error + display \<times> (int \<times> int \<times> int \<times> int) list" where
  "update_events g scr dirty_rects [] = Inr (scr, dirty_rects)"
| "update_events g scr dirty_rects (e # es) =
     (let scr1 = (if etype e = KEYDOWN \<and> key e = Some K_SPACE then show_capture g scr else scr)
      in if etype e = CAM_EVENT
         then (case image2surface (result e) (preview_size g) of
                 Inl err \<Rightarrow> Inl err
               | Inr surface \<Rightarrow>
                   (let rect = centered_rect (preview_size g) (screen_size scr1);
                        scr2 = scr1\<lparr>blits := blits scr1 @ [(surface, fst rect, fst (snd rect))]\<rparr>
                    in update_events g scr2 (dirty_rects @ [rect]) es))
         else update_events g scr1 dirty_rects es)"

definition Game_update :: "game \<Rightarrow> display \<Rightarrow> nat event list \<Rightarrow> error + display" where
  "Game_update g scr events =
     (case update_events g scr [] events of
        Inl err \<Rightarrow> Inl err
      | Inr (scr', dirty_rects) \<Rightarrow> Inr (scr'\<lparr>updates := updates scr' @ [dirty_rects]\<rparr>))"

text \<open>
  The game of use_update_dirty_on_event.py: the image sprite of the group
  (\<^verbatim>\<open>sprites.get_sprite(0)\<close>) and the counter. \<^verbatim>\<open>event.result\<close> is handed to \<^verbatim>\<open>set_skin\<close>.
\<close>

record dirty_game =
  image_sprite :: node
  capture_counter :: nat
  dgame :: game

fun result_skin :: "nat option \<Rightarrow> skin" where
  "result_skin None = SNone"
| "result_skin (Some c) = SPIL c"

fun node_set_skin :: "node \<Rightarrow> skin \<Rightarrow> error + node" where
  "node_set_skin (Node s subs) sk =
     (case set_skin s sk of Inl err \<Rightarrow> Inl err | Inr s' \<Rightarrow> Inr (Node s' subs))"

fun update_events_dirty :: "dirty_game \<Rightarrow> display \<Rightarrow> nat event list \<Rightarrow> error + dirty_game \<times> display" where
  "update_events_dirty g scr [] = Inr (g, scr)"
| "update_events_dirty g scr (e # es) =
     (let scr1 = (if etype e = KEYDOWN \<and> key e = Some K_SPACE then show_capture (dgame g) scr
                  else scr)
      in if etype e = CAM_EVENT
         then (case node_set_skin (image_sprite g) (result_skin (result e)) of
                 Inl err \<Rightarrow> Inl err
               | Inr n \<Rightarrow>
                   update_events_dirty
                     (g\<lparr>image_sprite := show n, capture_counter := capture_counter g + 1\<rparr>) scr1 es)
         else update_events_dirty g scr1 es)"

text \<open>
  \<^verbatim>\<open>Game.update\<close> of use_update_dirty_on_event.py. \<^verbatim>\<open>sprites.draw(screen)\<close> is pygame's
  \<^verbatim>\<open>LayeredDirty.draw\<close>, a parameter here: it paints the group and returns the changed
  rectangles.
\<close>

definition Game_update_dirty ::
  "(node \<Rightarrow> display \<Rightarrow> error + node \<times> display \<times> (int \<times> int \<times> int \<times> int) list)
     \<Rightarrow> dirty_game \<Rightarrow> display \<Rightarrow> nat event list \<Rightarrow> error + dirty_game \<times> display" where
  "Game_update_dirty group_draw g scr events =
     (case update_events_dirty g scr events of
        Inl err \<Rightarrow> Inl err
      | Inr (g1, scr1) \<Rightarrow>
          (case group_draw (image_sprite g1) scr1 of
             Inl err \<Rightarrow> Inl err
           | Inr (n, scr2, dirty_rects) \<Rightarrow>
               Inr (g1\<lparr>image_sprite := n\<rparr>, scr2\<lparr>updates := updates scr2 @ [dirty_rects]\<rparr>)))"

section \<open>Image geometry (use_update_on_event.py, use_update_dirty_on_event.py)\<close>

subsection \<open>Python floats\<close>

text \<open>
  A Python \<^verbatim>\<open>float\<close> is an IEEE 754 binary64 number. A finite one is modelled by the
  rational number it denotes, and every operation by the exact result rounded to the nearest
  number with a 53-bit significand, ties to even (\<open>fl\<close>). \<open>rhe\<close> rounds a rational to the
  nearest integer, ties to even; \<open>flog2 x\<close> is the exponent of \<open>x\<close>, the integer \<open>e\<close> with
  \<open>2\<^sup>e \<le> x < 2\<^sup>e\<^sup>+\<^sup>1\<close>. The exponent is not bounded: the model is binary64 as long as no
  value leaves its normal range (\<open>2\<^sup>-\<^sup>1\<^sup>0\<^sup>2\<^sup>2\<close> to \<open>2\<^sup>1\<^sup>0\<^sup>2\<^sup>4\<close>), which holds for all the
  sizes the theorems below are about.
\<close>

definition rhe :: "rat \<Rightarrow> int" where
  "rhe y = (let f = \<lfloor>y\<rfloor>; r = y - of_int f in
     if r < 1 / 2 then f else if 1 / 2 < r then f + 1 else if even f then f else f + 1)"

definition flog2 :: "rat \<Rightarrow> int" where
  "flog2 x = (let (p, q) = quotient_of x; d = bitlen p - bitlen q in
     if 2 powi d \<le> x then d else d - 1)"

definition fl :: "rat \<Rightarrow> rat" where
  "fl x = (if x = 0 then 0 else
      let e = flog2 \<bar>x\<bar> in sgn x * of_int (rhe (\<bar>x\<bar> * 2 powi (52 - e))) * 2 powi (e - 52))"

text \<open>The unit roundoff of binary64: the relative error of one rounding is at most this.\<close>

definition unit_roundoff :: rat where
  "unit_roundoff = 1 / 2 ^ 53"

text \<open>
  \<^verbatim>\<open>float(n)\<close> for an integer (and the conversion of an integer operand of \<^verbatim>\<open>/\<close> or
  \<^verbatim>\<open>*\<close>), and \<^verbatim>\<open>int(x)\<close>, which truncates towards zero.
\<close>

definition py_float :: "int \<Rightarrow> rat" where
  "py_float n = fl (of_int n)"

definition py_int :: "rat \<Rightarrow> int" where
  "py_int x = (if 0 \<le> x then \<lfloor>x\<rfloor> else \<lceil>x\<rceil>)"

subsection \<open>Aspect-preserving fit and crop\<close>

text \<open>
  \<^verbatim>\<open>new_size_keep_aspect_ratio(original_size, target_size, resize_type)\<close>. A division by a
  float that is zero raises \<^verbatim>\<open>ZeroDivisionError\<close>. The comparison of a float with an
  integer (\<^verbatim>\<open>ty > target_size[1]\<close>) is exact in Python.
\<close>

definition new_size_keep_aspect_ratio :: "int \<times> int \<Rightarrow> int \<times> int \<Rightarrow> string \<Rightarrow> error + int \<times> int" where
  "new_size_keep_aspect_ratio original_size target_size resize_type =
     (let ox = fst original_size; oy = snd original_size;
          tx = fst target_size; ty = snd target_size
      in if py_float oy = 0 \<or> py_float ty = 0 then Inl ZeroDivisionError
         else
           let img_ratio = fl (py_float ox / py_float oy);
               ratio = fl (py_float tx / py_float ty)
           in if img_ratio < ratio
              then (if py_float ox = 0 then Inl ZeroDivisionError
                    else
                      let scale_factor = fl (py_float tx / py_float ox);
                          ty1 = fl (scale_factor * py_float oy)
                      in if of_int ty < ty1 \<and> resize_type = ''inner''
                         then (let scale_factor = fl (py_float ty / py_float oy);
                                   tx1 = fl (scale_factor * py_float ox)
                               in Inr (py_int tx1, ty))
                         else Inr (tx, py_int ty1))
              else if ratio < img_ratio
              then (let scale_factor = fl (py_float ty / py_float oy);
                        tx1 = fl (scale_factor * py_float ox)
                    in if of_int tx < tx1 \<and> resize_type = ''inner''
                       then (if py_float ox = 0 then Inl ZeroDivisionError
                             else
                               let scale_factor = fl (py_float tx / py_float ox);
                                   ty1 = fl (scale_factor * py_float oy)
                               in Inr (tx, py_int ty1))
                       else Inr (py_int tx1, ty))
              else Inr (tx, ty))"

text \<open>
  \<^verbatim>\<open>new_size_by_croping_ratio(original_size, target_size, crop_type)\<close>;
  \<^verbatim>\<open>crop_type.endswith(..)\<close> is \<open>suffix\<close> and \<^verbatim>\<open>crop_type.startswith(..)\<close> is \<open>prefix\<close>, and
  \<^verbatim>\<open>//\<close> on integers is \<open>div\<close>.
\<close>

definition new_size_by_croping_ratio ::
  "int \<times> int \<Rightarrow> int \<times> int \<Rightarrow> string \<Rightarrow> error + int \<times> int \<times> int \<times> int" where
  "new_size_by_croping_ratio original_size target_size crop_type =
     (let ox = fst original_size; oy = snd original_size
      in if py_float oy = 0 \<or> py_float (snd target_size) = 0 then Inl ZeroDivisionError
         else
           let img_ratio = fl (py_float ox / py_float oy);
               ratio = fl (py_float (fst target_size) / py_float (snd target_size))
           in if img_ratio < ratio \<and> ratio = 0 then Inl ZeroDivisionError
              else
                let tx = (if img_ratio < ratio then ox
                          else if ratio < img_ratio then py_int (fl (ratio * py_float oy))
                          else ox);
                    ty = (if img_ratio < ratio then py_int (fl (py_float ox / ratio)) else oy);
                    x = (if suffix ''left'' crop_type then 0
                         else if suffix ''center'' crop_type then (ox - tx) div 2
                         else if suffix ''right'' crop_type then ox - tx
                         else 0);
                    y = (if prefix ''top'' crop_type then 0
                         else if prefix ''center'' crop_type then (oy - ty) div 2
                         else if prefix ''bottom'' crop_type then oy - ty
                         else 0)
                in Inr (x, y, tx + x, ty + y))"

section \<open>Example values\<close>

text \<open>
  \<^verbatim>\<open>load_pygame_image\<close> as the module has it: the name is bound nowhere, so the call raises
  \<^verbatim>\<open>NameError\<close>.
\<close>

definition undefined_loader :: "string \<Rightarrow> error + nat \<times> nat" where
  "undefined_loader p = Inl (NameError ''load_pygame_image'')"

text \<open>\<^verbatim>\<open>ImageSprite(None, (0, 0, 0))\<close>: a fresh sprite with a black colour skin.\<close>

definition fresh_black :: sprite where
  "fresh_black = \<lparr>image_cache = None, rect_topleft = (0, 0), rect_size = (10, 10), color = None,
                pressed = 0, layer = Some 2, dirty = 1, visible = 1, image_orig = STuple [0, 0, 0],
                path = None, crop = False, hflip = False, vflip = False, angle = 0,
                colorize = True\<rparr>"

text \<open>
  A sprite whose skin is the surface object 1 with pixels 7, after it has been rendered and
  painted (cache filled, dirty flag reset by the sprite group).
\<close>

definition drawn_surface_sprite :: sprite where
  "drawn_surface_sprite =
     \<lparr>image_cache = Some (Transformed (FromSurface 7) (10, 10) False False 0 False None),
      rect_topleft = (0, 0), rect_size = (10, 10), color = None, pressed = 0, layer = Some 2,
      dirty = 0, visible = 1, image_orig = SSurface 1 7, path = None, crop = False,
      hflip = False, vflip = False, angle = 0, colorize = True\<rparr>"

text \<open>A visible parent with one hidden child (the child was hidden by \<^verbatim>\<open>child.hide()\<close>).\<close>

definition hidden_child :: node where
  "hidden_child = Node (fresh_black\<lparr>visible := 0\<rparr>) []"

definition visible_parent :: node where
  "visible_parent = Node fresh_black [hidden_child]"

text \<open>
  A hidden parent with two sub-sprites: a visible one that has a hidden sub-sprite of its
  own, and a hidden one.
\<close>

definition mixed_tree :: node where
  "mixed_tree = Node (fresh_black\<lparr>visible := 0\<rparr>) [Node fresh_black [hidden_child], hidden_child]"

text \<open>A hidden parent with all sub-sprites hidden, as after \<^verbatim>\<open>parent.hide()\<close>.\<close>

definition hidden_tree :: node where
  "hidden_tree = Node (fresh_black\<lparr>visible := 0\<rparr>) [hidden_child, hidden_child]"

section \<open>Properties of drawable nodes\<close>

text \<open>
  C6 (as amended). \<^verbatim>\<open>set_rect(x, y, w, h)\<close> fails (the assertion, which is the code's
  invalid-dimensions error) when \<open>w \<le> 0\<close> or \<open>h \<le> 0\<close>, and leaves the node as it was.
  Otherwise, for arguments in the 32-bit range of \<^verbatim>\<open>pygame.Rect\<close>, it succeeds; a change of
  the position alone sets the dirty flag and keeps the cached image; a change of the size sets
  the dirty flag and drops the cached image; and nothing but the rectangle, the dirty flag and
  the cache is touched.
\<close>

theorem set_rect_frame:
  "(w \<le> 0 \<or> h \<le> 0 \<longrightarrow> (\<exists>msg. set_rect s x y w h = Inl (AssertionError msg, s)))
   \<and> (0 < w \<and> 0 < h \<and> in_c_int x \<and> in_c_int y \<and> in_c_int w \<and> in_c_int h \<longrightarrow>
        (\<exists>s'. set_rect s x y w h = Inr s'
        \<and> rect_topleft s' = (x, y) \<and> rect_size s' = (w, h)
        \<and> (rect_topleft s \<noteq> (x, y) \<and> rect_size s = (w, h) \<longrightarrow>
              dirty s' = 1 \<and> image_cache s' = image_cache s)
        \<and> (rect_size s \<noteq> (w, h) \<longrightarrow> dirty s' = 1 \<and> image_cache s' = None)
        \<and> s' = s\<lparr>rect_topleft := (x, y), rect_size := (w, h),
                 dirty := dirty s', image_cache := image_cache s'\<rparr>))"
  by (auto simp: set_rect_def set_dirty_def Let_def)

theorem set_rect_frame_witness:
  "set_rect \<lparr>image_cache = Some (Filled (10, 10) [0, 0, 0]), rect_topleft = (0, 0),
       rect_size = (10, 10), color = None, pressed = 0, layer = Some 2, dirty = 0, visible = 1,
       image_orig = STuple [0, 0, 0], path = None, crop = False, hflip = False, vflip = False,
       angle = 0, colorize = True\<rparr> 5 7 10 10
   = Inr \<lparr>image_cache = Some (Filled (10, 10) [0, 0, 0]), rect_topleft = (5, 7),
       rect_size = (10, 10), color = None, pressed = 0, layer = Some 2, dirty = 1, visible = 1,
       image_orig = STuple [0, 0, 0], path = None, crop = False, hflip = False, vflip = False,
       angle = 0, colorize = True\<rparr>"
  using set_rect_frame [where w = 10 and h = 10 and x = 5 and y = 7 and s = "\<lparr>image_cache = Some (Filled (10, 10) [0, 0, 0]),
       rect_topleft = (0, 0), rect_size = (10, 10), color = None, pressed = 0, layer = Some 2,
       dirty = 0, visible = 1, image_orig = STuple [0, 0, 0], path = None, crop = False,
       hflip = False, vflip = False, angle = 0, colorize = True\<rparr>"]
  by (auto simp: in_c_int_def)

text \<open>
  C6 as stated fails: moving a painted sprite to \<open>x = 2\<^sup>3\<^sup>1\<close> with its size unchanged raises
  \<^verbatim>\<open>TypeError\<close> from the assignment to the rectangle, and the dirty flag stays 0.
\<close>

theorem set_rect_range_counterexample:
  "set_rect drawn_surface_sprite (2 ^ 31) 0 10 10
     = Inl (TypeError ''invalid rect assignment'', drawn_surface_sprite)
   \<and> rect_size drawn_surface_sprite = (10, 10)
   \<and> dirty drawn_surface_sprite = 0"
  by (simp add: set_rect_def drawn_surface_sprite_def in_c_int_def)

subsection \<open>Cache coherence\<close>

lemma draw_cache_upd: "draw load (s\<lparr>image_cache := c\<rparr>) = map_sum id (\<lambda>(img, s'). (img, s'\<lparr>image_cache := c\<rparr>)) (draw load s)"
  by (auto simp: draw_def split: option.splits sum.splits skin.splits)

lemma draw_dirty_upd: "draw load (s\<lparr>dirty := c\<rparr>) = map_sum id (\<lambda>(img, s'). (img, s'\<lparr>dirty := c\<rparr>)) (draw load s)"
  by (auto simp: draw_def split: option.splits sum.splits skin.splits)

lemma draw_topleft_upd: "draw load (s\<lparr>rect_topleft := c\<rparr>) = map_sum id (\<lambda>(img, s'). (img, s'\<lparr>rect_topleft := c\<rparr>)) (draw load s)"
  by (auto simp: draw_def split: option.splits sum.splits skin.splits)

lemma draw_idem: "draw load s = Inr (img, s1) \<Longrightarrow> draw load s1 = Inr (img, s1)"
  by (auto simp: draw_def split: option.splits sum.splits skin.splits if_splits)

lemma image_prop_coherent:
  "cache_coherent load s \<Longrightarrow> image_prop load s = Inr (img, s') \<Longrightarrow> cache_coherent load s' \<and> image_cache s' = Some img"
  by (auto simp: cache_coherent_def image_prop_def draw_cache_upd dest: draw_idem split: option.splits sum.splits)

lemma set_dirty_True_coherent: "cache_coherent load (set_dirty s True)"
  by (simp add: cache_coherent_def set_dirty_def)

lemma set_rect_coherent:
  "cache_coherent load s \<Longrightarrow> set_rect s x y w h = Inr s' \<or> set_rect s x y w h = Inl (e, s')
     \<Longrightarrow> cache_coherent load s'"
  by (auto simp: set_rect_def Let_def set_dirty_def cache_coherent_def draw_dirty_upd
      draw_topleft_upd split: if_splits option.splits)

lemma set_skin_coherent: "cache_coherent load s \<Longrightarrow> set_skin s sk = Inr s' \<Longrightarrow> cache_coherent load s'"
  by (cases sk) (auto simp: set_dirty_True_coherent split: if_splits)

lemma apply_sprite_op_coherent: "cache_coherent load s \<Longrightarrow> cache_coherent load (apply_sprite_op load s opn)"
  apply (cases opn)
  apply (auto simp: set_color_def set_flip_def set_angle_def set_crop_def set_dirty_True_coherent Let_def
     dest: set_rect_coherent [OF _ disjI1] set_rect_coherent [OF _ disjI2] set_skin_coherent
       image_prop_coherent split: sum.splits option.splits)
  done

lemma foldl_coherent: "cache_coherent load s \<Longrightarrow> cache_coherent load (foldl (apply_sprite_op load) s ops)"
  by (induction ops arbitrary: s) (auto simp: apply_sprite_op_coherent)

lemma init_coherent: "ImageSprite_init sk colz sz lay = Inr s \<Longrightarrow> cache_coherent load s"
  by (auto simp: ImageSprite_init_def Let_def cache_coherent_def  split: if_splits dest!: set_skin_coherent[where load=load, rotated])

lemma draw_keeps_dirty: "draw load s = Inr (img, s1) \<Longrightarrow> dirty s1 = dirty s"
  by (auto simp: draw_def split: option.splits sum.splits skin.splits if_splits)

text \<open>
  C2 (as amended). The \<^verbatim>\<open>image\<close> property returns the cached image when there is one;
  otherwise it stores and returns what \<^verbatim>\<open>draw()\<close> computes from the current skin, flags and
  rectangle size. After any sequence of mutator calls and renderings of a constructed sprite,
  the image it returns is the one \<^verbatim>\<open>draw()\<close> computes from the current values. It leaves the
  dirty flag as it was.
\<close>

theorem image_prop_coherence:
  assumes "ImageSprite_init sk colz sz lay = Inr s0"
  shows "let s = foldl (apply_sprite_op load) s0 ops in
     (\<forall>c. image_cache s = Some c \<longrightarrow> image_prop load s = Inr (c, s))
   \<and> (image_cache s = None \<longrightarrow>
        image_prop load s = (case draw load s of Inl e \<Rightarrow> Inl e
                             | Inr (img, s1) \<Rightarrow> Inr (img, s1\<lparr>image_cache := Some img\<rparr>)))
   \<and> (\<forall>img s'. image_prop load s = Inr (img, s') \<longrightarrow>
         (\<exists>s1. draw load s = Inr (img, s1)) \<and> image_cache s' = Some img \<and> dirty s' = dirty s)"
proof -
  define s where "s = foldl (apply_sprite_op load) s0 ops"
  have coh: "cache_coherent load s"
    unfolding s_def by (rule foldl_coherent) (rule init_coherent [OF assms])
  have a: "\<forall>c. image_cache s = Some c \<longrightarrow> image_prop load s = Inr (c, s)"
    by (simp add: image_prop_def)
  have b: "image_cache s = None \<longrightarrow>
        image_prop load s = (case draw load s of Inl e \<Rightarrow> Inl e
                             | Inr (img, s1) \<Rightarrow> Inr (img, s1\<lparr>image_cache := Some img\<rparr>))"
    by (simp add: image_prop_def)
  have c: "\<forall>img s'. image_prop load s = Inr (img, s') \<longrightarrow>
         (\<exists>s1. draw load s = Inr (img, s1)) \<and> image_cache s' = Some img \<and> dirty s' = dirty s"
  proof (intro allI impI)
    fix img s' assume r: "image_prop load s = Inr (img, s')"
    show "(\<exists>s1. draw load s = Inr (img, s1)) \<and> image_cache s' = Some img \<and> dirty s' = dirty s"
    proof (cases "image_cache s")
      case None
      with r obtain s1 where d: "draw load s = Inr (img, s1)" and s': "s' = s1\<lparr>image_cache := Some img\<rparr>"
        by (auto simp: image_prop_def split: sum.splits)
      from d have "dirty s1 = dirty s" by (rule draw_keeps_dirty)
      with d s' show ?thesis by simp
    next
      case (Some c)
      with r have "img = c" "s' = s" by (simp_all add: image_prop_def)
      with Some coh show ?thesis by (simp add: cache_coherent_def)
    qed
  qed
  from a b c show ?thesis unfolding Let_def s_def [symmetric] by (intro conjI)
qed

theorem image_prop_coherence_witness:
  "ImageSprite_init (STuple [0, 0, 0]) True (10, 10) 2 = Inr fresh_black
   \<and> (\<exists>s1. draw undefined_loader
          (foldl (apply_sprite_op undefined_loader) fresh_black
             [SetRect 0 0 20 20, Render, SetAngle 90, SetRect 5 5 20 20])
        = Inr (Filled (20, 20) [0, 0, 0], s1))"
proof -
  let ?s = "foldl (apply_sprite_op undefined_loader) fresh_black
              [SetRect 0 0 20 20, Render, SetAngle 90, SetRect 5 5 20 20]"
  have h: "ImageSprite_init (STuple [0, 0, 0]) True (10, 10) 2 = Inr fresh_black"
    by (simp add: ImageSprite_init_def fresh_black_def set_dirty_def)
  have r: "image_prop undefined_loader ?s
             = Inr (Filled (20, 20) [0, 0, 0], ?s\<lparr>image_cache := Some (Filled (20, 20) [0, 0, 0])\<rparr>)"
    by (simp add: fresh_black_def set_rect_def in_c_int_def set_dirty_def set_angle_def
        image_prop_def
        draw_def)
  from image_prop_coherence [OF h, of undefined_loader
      "[SetRect 0 0 20 20, Render, SetAngle 90, SetRect 5 5 20 20]"] r
  have "\<exists>s1. draw undefined_loader ?s = Inr (Filled (20, 20) [0, 0, 0], s1)"
    unfolding Let_def by blast
  with h show ?thesis by blast
qed

text \<open>
  C2 as stated fails: rendering a fresh sprite returns the image and leaves \<^verbatim>\<open>dirty\<close> at 1.
\<close>

theorem image_prop_dirty_counterexample:
  "image_prop undefined_loader fresh_black
     = Inr (Filled (10, 10) [0, 0, 0], fresh_black\<lparr>image_cache := Some (Filled (10, 10) [0, 0, 0])\<rparr>)
   \<and> dirty (fresh_black\<lparr>image_cache := Some (Filled (10, 10) [0, 0, 0])\<rparr>) = 1"
  by (simp add: image_prop_def draw_def fresh_black_def)

subsection \<open>Mutators called with the current value\<close>

text \<open>
  C5 (as amended). Calling a mutator with the node's current value changes nothing: the
  rectangle, a path, a colour tuple or list and a PIL image are compared by value, the flags
  and the angle too; a pygame surface is the current value when it is the same object.
\<close>

theorem mutator_current_value_noop:
  "(0 < fst (rect_size s) \<and> 0 < snd (rect_size s) \<longrightarrow>
      set_rect s (fst (rect_topleft s)) (snd (rect_topleft s))
                 (fst (rect_size s)) (snd (rect_size s)) = Inr s)
   \<and> (\<forall>x y w h s'. set_rect s x y w h = Inr s' \<and> (x, y) = rect_topleft s \<and> (w, h) = rect_size s
         \<longrightarrow> s' = s)
   \<and> (path s = Some p \<longrightarrow> set_skin s (SStr p) = Inr s)
   \<and> (image_orig s = STuple xs \<and> length xs = 3 \<longrightarrow> set_skin s (STuple xs) = Inr s)
   \<and> (image_orig s = SList xs \<and> length xs = 3 \<longrightarrow> set_skin s (SList xs) = Inr s)
   \<and> (image_orig s = SPIL c \<longrightarrow> set_skin s (SPIL c) = Inr s)
   \<and> (image_orig s = SSurface i px \<longrightarrow> set_skin s (SSurface i px') = Inr s)
   \<and> set_flip s (Some (hflip s)) (Some (vflip s)) = s
   \<and> set_flip s None (Some (vflip s)) = s
   \<and> set_flip s (Some (hflip s)) None = s
   \<and> set_flip s None None = s
   \<and> set_angle s (angle s) = s
   \<and> set_crop s (crop s) = s"
  by (auto simp: set_rect_def set_flip_def set_angle_def set_crop_def Let_def)

theorem mutator_current_value_noop_witness:
  "set_rect drawn_surface_sprite 0 0 10 10 = Inr drawn_surface_sprite
   \<and> set_skin drawn_surface_sprite (SSurface 1 7) = Inr drawn_surface_sprite"
  using mutator_current_value_noop [where s = drawn_surface_sprite and i = 1 and px = 7 and px' = 7]
  by (simp add: drawn_surface_sprite_def)

text \<open>
  C5 as stated fails: a second surface object with the same pixels as the current skin is
  taken as a change, which sets the dirty flag and drops the cached image.
\<close>

theorem set_skin_equal_surface_counterexample:
  "set_skin drawn_surface_sprite (SSurface 2 7)
     = Inr (drawn_surface_sprite\<lparr>image_orig := SSurface 2 7, dirty := 1, image_cache := None\<rparr>)
   \<and> dirty drawn_surface_sprite = 0
   \<and> image_cache drawn_surface_sprite
       = Some (Transformed (FromSurface 7) (10, 10) False False 0 False None)"
  by (simp add: drawn_surface_sprite_def set_dirty_def)

subsection \<open>Visibility\<close>

lemma show_idem: "show (show n) = show n"
  by (cases n) (simp add: set_visible_def Let_def)
lemma hide_idem: "hide (hide n) = hide n"
  by (cases n) (simp add: set_visible_def Let_def)
lemma show_all_hidden: "all_hidden n \<Longrightarrow> all_visible (show n)"
  by (induction n rule: all_hidden.induct) (auto simp: set_visible_def Let_def list_all_iff)
lemma hide_all_visible: "all_visible n \<Longrightarrow> all_hidden (hide n)"
  by (induction n rule: all_visible.induct) (auto simp: set_visible_def Let_def list_all_iff)
lemma all_visible_node: "all_visible d \<Longrightarrow> node_visible d"
  by (cases d) simp
lemma all_hidden_node: "all_hidden d \<Longrightarrow> \<not> node_visible d"
  by (cases d) simp
lemma all_visible_descendants: "all_visible n \<Longrightarrow> d \<in> set (get_sprites_rec n) \<Longrightarrow> node_visible d"
proof (induction n arbitrary: d rule: get_sprites_rec.induct)
  case (1 s subs)
  then show ?case
    by (auto simp: list_all_iff dest: all_visible_node all_hidden_node)
qed
lemma all_hidden_descendants: "all_hidden n \<Longrightarrow> d \<in> set (get_sprites_rec n) \<Longrightarrow> \<not> node_visible d"
proof (induction n arbitrary: d rule: get_sprites_rec.induct)
  case (1 s subs)
  then show ?case
    by (auto simp: list_all_iff dest: all_visible_node all_hidden_node)
qed

lemma node_visible_show: "node_visible (show n)"
  by (cases n) (simp add: set_visible_def Let_def)

lemma node_hidden_hide: "\<not> node_visible (hide n)"
  by (cases n) (simp add: set_visible_def Let_def)

lemma show_subnode:
  "map_option node_visible (subnode (show n) p)
     = map_option (\<lambda>d. node_visible d \<or> hidden_chain n p) (subnode n p)"
proof (induction p arbitrary: n)
  case Nil
  then show ?case by (simp add: node_visible_show)
next
  case (Cons i p)
  obtain s subs where n: "n = Node s subs" by (cases n)
  show ?case
  proof (cases "visible s = 0")
    case True
    with Cons.IH [of "subs ! i"] show ?thesis by (simp add: n)
  next
    case False
    then show ?thesis by (simp add: n)
  qed
qed

lemma hide_subnode:
  "map_option node_visible (subnode (hide n) p)
     = map_option (\<lambda>d. node_visible d \<and> \<not> visible_chain n p) (subnode n p)"
proof (induction p arbitrary: n)
  case Nil
  then show ?case by (simp add: node_hidden_hide)
next
  case (Cons i p)
  obtain s subs where n: "n = Node s subs" by (cases n)
  show ?case
  proof (cases "visible s = 0")
    case True
    then show ?thesis by (simp add: n)
  next
    case False
    with Cons.IH [of "subs ! i"] show ?thesis by (simp add: n)
  qed
qed

text \<open>
  C7 (as amended). \<^verbatim>\<open>show\<close> and \<^verbatim>\<open>hide\<close> are idempotent, and change nothing on a node that
  is already visible (hidden), whatever the state of its descendants. \<^verbatim>\<open>show(n)\<close> leaves \<open>n\<close>
  visible and propagates to the descendants through hidden nodes, stopping at nodes that are
  already visible: afterwards a descendant is visible exactly when it was visible before or
  \<open>n\<close> and all the nodes between \<open>n\<close> and it were hidden. \<^verbatim>\<open>hide(n)\<close> leaves \<open>n\<close> hidden and
  propagates through visible nodes, stopping at nodes that are already hidden: afterwards a
  descendant is visible exactly when it was visible before and \<open>n\<close> or some node between \<open>n\<close>
  and it was hidden. In particular, on a node that is hidden together with all its
  descendants \<^verbatim>\<open>show\<close> makes the node and every descendant visible, and on a node that is
  visible together with all its descendants \<^verbatim>\<open>hide\<close> hides them all.
\<close>

theorem show_hide_propagate:
  "show (show n) = show n \<and> hide (hide n) = hide n
   \<and> (node_visible n \<longrightarrow> show n = n) \<and> (\<not> node_visible n \<longrightarrow> hide n = n)
   \<and> map_option node_visible (subnode (show n) p)
       = map_option (\<lambda>d. node_visible d \<or> hidden_chain n p) (subnode n p)
   \<and> map_option node_visible (subnode (hide n) p)
       = map_option (\<lambda>d. node_visible d \<and> \<not> visible_chain n p) (subnode n p)
   \<and> (all_hidden n \<longrightarrow> node_visible (show n) \<and> (\<forall>d \<in> set (get_sprites_rec (show n)). node_visible d))
   \<and> (all_visible n \<longrightarrow> \<not> node_visible (hide n) \<and> (\<forall>d \<in> set (get_sprites_rec (hide n)). \<not> node_visible d))"
proof -
  have a: "node_visible n \<longrightarrow> show n = n" by (cases n) simp
  have b: "\<not> node_visible n \<longrightarrow> hide n = n" by (cases n) simp
  have c: "all_hidden n \<longrightarrow> node_visible (show n) \<and> (\<forall>d \<in> set (get_sprites_rec (show n)). node_visible d)"
    using show_all_hidden [of n] all_visible_descendants [of "show n"]
    by (cases "show n") auto
  have d: "all_visible n \<longrightarrow> \<not> node_visible (hide n) \<and> (\<forall>d \<in> set (get_sprites_rec (hide n)). \<not> node_visible d)"
    using hide_all_visible [of n] all_hidden_descendants [of "hide n"]
    by (cases "hide n") auto
  from show_idem [of n] hide_idem [of n] a b show_subnode [of n p] hide_subnode [of n p] c d
  show ?thesis by (intro conjI)
qed

theorem show_hide_propagate_witness:
  "all_hidden hidden_tree \<and> node_visible (show hidden_tree)
   \<and> list_all node_visible (get_sprites_rec (show hidden_tree))
   \<and> map_option node_visible (subnode (show mixed_tree) [0]) = Some True
   \<and> map_option node_visible (subnode (show mixed_tree) [1]) = Some True
   \<and> map_option node_visible (subnode (show mixed_tree) [0, 0]) = Some False"
proof -
  have h: "all_hidden hidden_tree"
    by (simp add: hidden_tree_def hidden_child_def)
  with show_hide_propagate [of hidden_tree "[]"]
  have t: "node_visible (show hidden_tree)
      \<and> list_all node_visible (get_sprites_rec (show hidden_tree))"
    unfolding list_all_iff by blast
  have m0: "map_option node_visible (subnode (show mixed_tree) [0]) = Some True"
    using show_hide_propagate [of mixed_tree "[0]"]
    by (simp add: mixed_tree_def hidden_child_def fresh_black_def)
  have m1: "map_option node_visible (subnode (show mixed_tree) [1]) = Some True"
    using show_hide_propagate [of mixed_tree "[1]"]
    by (simp add: mixed_tree_def hidden_child_def fresh_black_def)
  have m2: "map_option node_visible (subnode (show mixed_tree) [0, 0]) = Some False"
    using show_hide_propagate [of mixed_tree "[0, 0]"]
    by (simp add: mixed_tree_def hidden_child_def fresh_black_def)
  from h t m0 m1 m2 show ?thesis by (intro conjI) simp_all
qed

text \<open>
  C7 as stated fails: \<^verbatim>\<open>show\<close> on a visible parent returns at once, and its hidden child
  stays hidden.
\<close>

theorem show_visible_parent_counterexample:
  "show visible_parent = visible_parent
   \<and> get_sprites_rec (show visible_parent) = [hidden_child]
   \<and> \<not> node_visible hidden_child"
  by (simp add: visible_parent_def hidden_child_def fresh_black_def)

section \<open>Properties of tasks and of the pool\<close>

subsection \<open>Task execution\<close>





subsection \<open>Submission after shutdown\<close>

lemma pool_step_shut_down: "is_shut_down w \<Longrightarrow> is_shut_down (pool_step w opn)"
  by (cases opn)
     (auto simp: is_shut_down_def AsyncTasksPool_init_def AsyncTasksPool_quit_def
        AsyncTask_init_def finish_task_def Let_def split: option.splits sum.splits)

lemma pool_steps_shut_down: "is_shut_down w \<Longrightarrow> is_shut_down (foldl pool_step w ops)"
  by (induction ops arbitrary: w) (simp_all add: pool_step_shut_down)

lemma pool_step_stop_flag:
  "is_shut_down w \<Longrightarrow> stop_flag w \<Longrightarrow> NewPool \<noteq> opn \<Longrightarrow> stop_flag (pool_step w opn)"
  by (cases opn)
     (auto simp: is_shut_down_def stop_flag_def AsyncTasksPool_quit_def start_task_def
        executor_submit_def AsyncTask_init_def finish_task_def Let_def
        split: option.splits sum.splits if_splits)

lemma pool_steps_stop_flag:
  "is_shut_down w \<Longrightarrow> stop_flag w \<Longrightarrow> NewPool \<notin> set ops \<Longrightarrow> stop_flag (foldl pool_step w ops)"
  by (induction ops arbitrary: w) (simp_all add: pool_step_stop_flag pool_step_shut_down)

lemma submit_shut_down:
  "is_shut_down w \<Longrightarrow>
     AsyncTask_init w t = Inl (RuntimeError (if stop_flag w then ''AsyncTasksPool is shutting down''
                                else ''cannot schedule new futures after shutdown''))"
  by (auto simp: is_shut_down_def stop_flag_def AsyncTask_init_def start_task_def
      executor_submit_def split: option.splits)

lemma quit_shut_down: "POOL w \<noteq> None \<Longrightarrow> is_shut_down (AsyncTasksPool_quit w) \<and> stop_flag (AsyncTasksPool_quit w)"
  by (auto simp: is_shut_down_def stop_flag_def AsyncTasksPool_quit_def split: option.splits)

text \<open>
  C1 (as amended). After \<^verbatim>\<open>quit()\<close>, and after any further operations on the pool, a
  submission fails and registers nothing. It fails with the pool's own error right after
  \<^verbatim>\<open>quit()\<close> and as long as no other pool object has been constructed; after that it fails
  with the pool's error or with the error of the executor's \<^verbatim>\<open>submit\<close>.
\<close>

theorem submit_after_quit_fails:
  assumes "POOL w \<noteq> None"
  shows "AsyncTask_init (AsyncTasksPool_quit w) t = Inl (RuntimeError ''AsyncTasksPool is shutting down'')
   \<and> (NewPool \<notin> set ops \<longrightarrow>
        AsyncTask_init (foldl pool_step (AsyncTasksPool_quit w) ops) t
          = Inl (RuntimeError ''AsyncTasksPool is shutting down''))
   \<and> (AsyncTask_init (foldl pool_step (AsyncTasksPool_quit w) ops) t
          = Inl (RuntimeError ''AsyncTasksPool is shutting down'')
      \<or> AsyncTask_init (foldl pool_step (AsyncTasksPool_quit w) ops) t
          = Inl (RuntimeError ''cannot schedule new futures after shutdown''))
   \<and> FUTURES (pool_step (foldl pool_step (AsyncTasksPool_quit w) ops) (Submit t))
       = FUTURES (foldl pool_step (AsyncTasksPool_quit w) ops)"
proof -
  let ?q = "AsyncTasksPool_quit w" and ?w = "foldl pool_step (AsyncTasksPool_quit w) ops"
  from assms have q: "is_shut_down ?q" "stop_flag ?q" using quit_shut_down by auto
  have sd: "is_shut_down ?w" using q(1) by (rule pool_steps_shut_down)
  have a: "AsyncTask_init ?q t = Inl (RuntimeError ''AsyncTasksPool is shutting down'')"
    using submit_shut_down [OF q(1), of t] q(2) by simp
  have b: "NewPool \<notin> set ops \<longrightarrow>
        AsyncTask_init ?w t = Inl (RuntimeError ''AsyncTasksPool is shutting down'')"
    using submit_shut_down [OF sd, of t] pool_steps_stop_flag [OF q] by simp
  have c: "AsyncTask_init ?w t = Inl (RuntimeError ''AsyncTasksPool is shutting down'')
      \<or> AsyncTask_init ?w t = Inl (RuntimeError ''cannot schedule new futures after shutdown'')"
    using submit_shut_down [OF sd, of t] by (cases "stop_flag ?w") simp_all
  have d: "FUTURES (pool_step ?w (Submit t)) = FUTURES ?w"
    using submit_shut_down [OF sd, of t] by simp
  from a b c d show ?thesis by (intro conjI)
qed

theorem submit_after_quit_fails_witness:
  "POOL (AsyncTasksPool_init no_pool) \<noteq> None
   \<and> AsyncTask_init (foldl pool_step (AsyncTasksPool_quit (AsyncTasksPool_init no_pool))
        [Submit camera_task, Finish 0, Quit]) camera_task
       = Inl (RuntimeError ''AsyncTasksPool is shutting down'')"
proof -
  have h: "POOL (AsyncTasksPool_init no_pool) \<noteq> None"
    by (simp add: AsyncTasksPool_init_def no_pool_def)
  have n: "NewPool \<notin> set [Submit camera_task, Finish 0, Quit]" by simp
  from submit_after_quit_fails [OF h, of camera_task "[Submit camera_task, Finish 0, Quit]"] n h
  show ?thesis by blast
qed

text \<open>
  C1 as stated fails: constructing a pool object after \<^verbatim>\<open>quit()\<close> replaces the stop event
  by a fresh one, and the next submission gets past the pool's test; it is the executor that
  refuses it, with its own error.
\<close>

theorem submit_after_quit_new_pool_counterexample:
  "AsyncTask_init (AsyncTasksPool_init (AsyncTasksPool_quit (AsyncTasksPool_init no_pool)))
       camera_task
     = Inl (RuntimeError ''cannot schedule new futures after shutdown'')"
  by (simp add: AsyncTask_init_def AsyncTasksPool_init_def AsyncTasksPool_quit_def no_pool_def
      start_task_def executor_submit_def)

section \<open>Properties of the consumer\<close>

text \<open>
  C4. The event that a failing camera task posts has \<^verbatim>\<open>result=None\<close>. Both consumers
  read \<^verbatim>\<open>event.result\<close> without looking at \<^verbatim>\<open>event.exception\<close>, and \<^verbatim>\<open>update\<close> raises:
  in use_update_on_event.py from \<^verbatim>\<open>image2surface\<close>, in use_update_dirty_on_event.py from the
  assertion of \<^verbatim>\<open>set_skin\<close>.
\<close>

theorem update_failure_event_raises:
  "emit camera_task None (Some ''capture failed'') []
     = [\<lparr>etype = CAM_EVENT, key = None, result = None, exception = Some ''capture failed''\<rparr>]
   \<and> Game_update g scr
       [\<lparr>etype = CAM_EVENT, key = None, result = None, exception = Some ''capture failed''\<rparr>]
     = Inl (AttributeError ''tobytes'')
   \<and> Game_update_dirty group_draw dg scr
       [\<lparr>etype = CAM_EVENT, key = None, result = None, exception = Some ''capture failed''\<rparr>]
     = Inl (AssertionError ''PIL Image or Pygame Surface is required'')"
  by (cases "image_sprite dg")
     (simp add: Game_update_def Game_update_dirty_def emit_def camera_task_def CAM_EVENT_def
       USEREVENT_def KEYDOWN_def)

section \<open>Properties of the image geometry\<close>

subsection \<open>Rounding\<close>

lemma rhe_of_int: "rhe (of_int k) = k"
  by (simp add: rhe_def)

lemma rhe_err: "\<bar>of_int (rhe y) - y\<bar> \<le> 1 / 2"
proof -
  have "of_int \<lfloor>y\<rfloor> \<le> y" "y < of_int \<lfloor>y\<rfloor> + 1" by linarith+
  then show ?thesis by (auto simp: rhe_def Let_def)
qed

lemma pow2_nat_powi: "0 \<le> k \<Longrightarrow> (2::rat) ^ nat k = 2 powi k"
  by (simp add: power_int_def)

lemma flog2_bounds:
  assumes "0 < x"
  shows "2 powi flog2 x \<le> x" and "x < 2 powi (flog2 x + 1)"
proof -
  obtain p q where pq: "quotient_of x = (p, q)" by (cases "quotient_of x")
  then have q: "0 < q" and x: "x = of_int p / of_int q"
    by (simp_all add: quotient_of_denom_pos quotient_of_div)
  from assms x q have p: "0 < p" by (simp add: zero_less_divide_iff)
  have bp: "1 \<le> bitlen p" and bq: "1 \<le> bitlen q"
    using p q by (simp_all add: bitlen_alt_def)
  from bitlen_bounds [OF p] have p1: "(2::rat) ^ nat (bitlen p - 1) \<le> of_int p"
    and p2: "(of_int p :: rat) < 2 ^ nat (bitlen p)"
    by (metis of_int_le_iff of_int_numeral of_int_power, metis of_int_less_iff of_int_numeral of_int_power)
  from bitlen_bounds [OF q] have q1: "(2::rat) ^ nat (bitlen q - 1) \<le> of_int q"
    and q2: "(of_int q :: rat) < 2 ^ nat (bitlen q)"
    by (metis of_int_le_iff of_int_numeral of_int_power, metis of_int_less_iff of_int_numeral of_int_power)
  have P1: "(2::rat) powi (bitlen p - 1) \<le> of_int p" using p1 bp by (simp add: pow2_nat_powi)
  have P2: "(of_int p :: rat) < 2 powi (bitlen p)" using p2 bp by (simp add: pow2_nat_powi)
  have Q1: "(2::rat) powi (bitlen q - 1) \<le> of_int q" using q1 bq by (simp add: pow2_nat_powi)
  have Q2: "(of_int q :: rat) < 2 powi (bitlen q)" using q2 bq by (simp add: pow2_nat_powi)
  let ?d = "bitlen p - bitlen q"
  have qpos: "(0::rat) < of_int q" using q by simp
  have lo: "(2::rat) powi (?d - 1) \<le> x"
  proof -
    have "(2::rat) powi (?d - 1) * of_int q \<le> 2 powi (?d - 1) * 2 powi (bitlen q)"
      using Q2 by (intro mult_left_mono) simp_all
    also have "\<dots> = 2 powi (bitlen p - 1)"
      by (simp flip: power_int_add)
    also have "\<dots> \<le> of_int p" by (rule P1)
    finally show ?thesis using qpos by (simp add: x pos_le_divide_eq)
  qed
  have hi: "x < (2::rat) powi (?d + 1)"
  proof -
    have "of_int p < (2::rat) powi (bitlen p)" by (rule P2)
    also have "\<dots> = 2 powi (?d + 1) * 2 powi (bitlen q - 1)"
      by (simp flip: power_int_add)
    also have "\<dots> \<le> 2 powi (?d + 1) * of_int q"
      using Q1 by (intro mult_left_mono) simp_all
    finally show ?thesis using qpos by (simp add: x pos_divide_less_eq)
  qed
  show "2 powi flog2 x \<le> x" using lo by (simp add: flog2_def pq Let_def)
  show "x < 2 powi (flog2 x + 1)" using hi by (auto simp: flog2_def pq Let_def not_le)
qed

lemma fl_rel_error:
  assumes "0 < x"
  shows "\<bar>fl x - x\<bar> \<le> x / 2 ^ 53"
proof -
  let ?e = "flog2 x"
  let ?y = "x * 2 powi (52 - ?e)"
  have fx: "fl x = of_int (rhe ?y) * 2 powi (?e - 52)"
    using assms by (simp add: fl_def Let_def)
  have y: "?y * 2 powi (?e - 52) = x"
    by (simp add: mult.assoc flip: power_int_add)
  have "\<bar>fl x - x\<bar> = \<bar>of_int (rhe ?y) - ?y\<bar> * 2 powi (?e - 52)"
  proof -
    have "fl x - x = (of_int (rhe ?y) - ?y) * 2 powi (?e - 52)"
      using y by (simp add: fx left_diff_distrib)
    then show ?thesis by (simp add: abs_mult)
  qed
  also have "\<dots> \<le> (1 / 2) * 2 powi (?e - 52)"
    by (intro mult_right_mono rhe_err) simp
  also have "\<dots> = 2 powi ?e / 2 ^ 53"
    by (simp add: power_int_diff)
  also have "\<dots> \<le> x / 2 ^ 53"
    using flog2_bounds(1) [OF assms] by (simp add: divide_right_mono)
  finally show ?thesis .
qed

lemma fl_of_int:
  assumes "0 < n" "n < 2 ^ 53"
  shows "fl (of_int n) = of_int n"
proof -
  let ?x = "of_int n :: rat"
  let ?e = "flog2 ?x"
  have x: "0 < ?x" using assms by simp
  have lo: "2 powi ?e \<le> ?x" by (rule flog2_bounds(1) [OF x])
  have hi: "?x < 2 powi 53" using assms(2)
    by (metis of_int_less_iff of_int_numeral of_int_power power_int_numeral)
  have "?e < 53"
  proof (rule ccontr)
    assume "\<not> ?e < 53"
    then have "(2::rat) powi 53 \<le> 2 powi ?e" by (intro power_int_increasing) simp_all
    with lo hi show False by linarith
  qed
  then have e: "0 \<le> 52 - ?e" by simp
  have "?x * 2 powi (52 - ?e) = of_int (n * 2 ^ nat (52 - ?e))"
    using e by (simp add: pow2_nat_powi)
  then have "rhe (?x * 2 powi (52 - ?e)) = n * 2 ^ nat (52 - ?e)"
    by (simp only: rhe_of_int)
  then have "fl ?x = of_int (n * 2 ^ nat (52 - ?e)) * 2 powi (?e - 52)"
    using x by (simp add: fl_def Let_def)
  also have "\<dots> = ?x * (2 powi (52 - ?e) * 2 powi (?e - 52))"
    using e by (simp add: pow2_nat_powi)
  also have "\<dots> = ?x" by (simp flip: power_int_add)
  finally show ?thesis .
qed

lemma py_float_exact: "0 < n \<Longrightarrow> n \<le> 2 ^ 25 \<Longrightarrow> py_float n = of_int n"
  unfolding py_float_def by (rule fl_of_int) simp_all

lemma unit_roundoff_range: "0 < unit_roundoff" "unit_roundoff < 1"
  by (simp_all add: unit_roundoff_def)

lemma fl_bounds:
  assumes "0 < x"
  shows "x * (1 - unit_roundoff) \<le> fl x" and "fl x \<le> x * (1 + unit_roundoff)" and "0 < fl x"
proof -
  from fl_rel_error [OF assms] have a: "\<bar>fl x - x\<bar> \<le> x * unit_roundoff"
    by (simp add: unit_roundoff_def)
  show lo: "x * (1 - unit_roundoff) \<le> fl x" using a by (simp add: algebra_simps abs_le_iff)
  have "0 < x * (1 - unit_roundoff)"
    using assms unit_roundoff_range by (intro mult_pos_pos) simp_all
  with lo show "0 < fl x" by linarith
  show "fl x \<le> x * (1 + unit_roundoff)" using a by (simp add: algebra_simps abs_le_iff)
qed

lemma two_roundings:
  assumes e: "0 < e" and s1: "e * (1 - unit_roundoff) \<le> p" and s2: "p \<le> e * (1 + unit_roundoff)"
  shows "e * (1 - unit_roundoff) ^ 2 \<le> fl p" and "fl p \<le> e * (1 + unit_roundoff) ^ 2"
proof -
  have "0 < e * (1 - unit_roundoff)"
    using e unit_roundoff_range by (intro mult_pos_pos) simp_all
  with s1 have p: "0 < p" by linarith
  have u1: "0 \<le> 1 - unit_roundoff" and u2: "0 \<le> 1 + unit_roundoff"
    using unit_roundoff_range by simp_all
  have "e * (1 - unit_roundoff) ^ 2 = (e * (1 - unit_roundoff)) * (1 - unit_roundoff)"
    by (simp add: power2_eq_square)
  also have "\<dots> \<le> p * (1 - unit_roundoff)" using s1 u1 by (rule mult_right_mono)
  also have "\<dots> \<le> fl p" by (rule fl_bounds(1) [OF p])
  finally show "e * (1 - unit_roundoff) ^ 2 \<le> fl p" .
  have "fl p \<le> p * (1 + unit_roundoff)" by (rule fl_bounds(2) [OF p])
  also have "\<dots> \<le> (e * (1 + unit_roundoff)) * (1 + unit_roundoff)"
    using s2 u2 by (rule mult_right_mono)
  also have "\<dots> = e * (1 + unit_roundoff) ^ 2" by (simp add: power2_eq_square)
  finally show "fl p \<le> e * (1 + unit_roundoff) ^ 2" .
qed

lemma roundoff_margin:
  fixes A :: rat
  assumes "0 \<le> A" "A \<le> 2 ^ 50"
  shows "A * (1 + unit_roundoff) ^ 2 < A + 1" and "A - 1 < A * (1 - unit_roundoff) ^ 2"
    and "A * ((1 + unit_roundoff) / (1 - unit_roundoff)) < A + 1"
    and "A - 1 < A * ((1 - unit_roundoff) / (1 + unit_roundoff))"
proof -
  have "A * ((1 + unit_roundoff) ^ 2 - 1) \<le> 2 ^ 50 * ((1 + unit_roundoff) ^ 2 - 1)"
    using assms(2) by (rule mult_right_mono) (simp add: unit_roundoff_def power2_eq_square)
  also have "\<dots> < 1" by (simp add: unit_roundoff_def power2_eq_square)
  finally show "A * (1 + unit_roundoff) ^ 2 < A + 1" by (simp add: algebra_simps)
  have "A * (1 - (1 - unit_roundoff) ^ 2) \<le> 2 ^ 50 * (1 - (1 - unit_roundoff) ^ 2)"
    using assms(2) by (rule mult_right_mono) (simp add: unit_roundoff_def power2_eq_square)
  also have "\<dots> < 1" by (simp add: unit_roundoff_def power2_eq_square)
  finally show "A - 1 < A * (1 - unit_roundoff) ^ 2" by (simp add: algebra_simps)
  have "A * ((1 + unit_roundoff) / (1 - unit_roundoff) - 1)
      \<le> 2 ^ 50 * ((1 + unit_roundoff) / (1 - unit_roundoff) - 1)"
    using assms(2) by (rule mult_right_mono) (simp add: unit_roundoff_def power2_eq_square)
  also have "\<dots> < 1" by (simp add: unit_roundoff_def power2_eq_square)
  finally show "A * ((1 + unit_roundoff) / (1 - unit_roundoff)) < A + 1"
    by (simp add: algebra_simps)
  have "A * (1 - (1 - unit_roundoff) / (1 + unit_roundoff))
      \<le> 2 ^ 50 * (1 - (1 - unit_roundoff) / (1 + unit_roundoff))"
    using assms(2) by (rule mult_right_mono) (simp add: unit_roundoff_def power2_eq_square)
  also have "\<dots> < 1" by (simp add: unit_roundoff_def power2_eq_square)
  finally show "A - 1 < A * ((1 - unit_roundoff) / (1 + unit_roundoff))"
    by (simp add: algebra_simps)
qed

lemma product_bound:
  fixes a c :: int
  assumes "0 < a" "a \<le> 2 ^ 25" "0 < c" "c \<le> 2 ^ 25"
  shows "(0::rat) \<le> of_int (a * c)" and "(of_int (a * c) :: rat) \<le> 2 ^ 50"
proof -
  have "a * c \<le> 2 ^ 25 * 2 ^ 25" using assms by (intro mult_mono) simp_all
  then have "a * c \<le> 2 ^ 50" by simp
  then have "(of_int (a * c) :: rat) \<le> of_int (2 ^ 50)" by (simp only: of_int_le_iff)
  then show "(of_int (a * c) :: rat) \<le> 2 ^ 50" by simp
  show "(0::rat) \<le> of_int (a * c)" using assms by simp
qed

lemma scale_close:
  fixes a b c :: int
  assumes a: "0 < a" "a \<le> 2 ^ 25" and b: "0 < b" and c: "0 < c" "c \<le> 2 ^ 25"
  shows "\<bar>fl (fl (of_int a / of_int b) * of_int c) * of_int b - of_int (a * c)\<bar> < 1"
proof -
  let ?x = "of_int a / of_int b :: rat" and ?c = "of_int c :: rat" and ?b = "of_int b :: rat"
  let ?A = "of_int (a * c) :: rat"
  let ?v = "fl (fl ?x * ?c)"
  have x: "0 < ?x" using a b by simp
  have cpos: "0 < ?c" using c by simp
  have bpos: "0 < ?b" using b by simp
  have e: "0 < ?x * ?c" using x cpos by (rule mult_pos_pos)
  have s1: "(?x * ?c) * (1 - unit_roundoff) \<le> fl ?x * ?c"
    using mult_right_mono [OF fl_bounds(1) [OF x], of ?c] cpos by (simp add: mult_ac)
  have s2: "fl ?x * ?c \<le> (?x * ?c) * (1 + unit_roundoff)"
    using mult_right_mono [OF fl_bounds(2) [OF x], of ?c] cpos by (simp add: mult_ac)
  note v = two_roundings [OF e s1 s2]
  have eb: "(?x * ?c) * ?b = ?A" using bpos by simp
  have lo: "?A * (1 - unit_roundoff) ^ 2 \<le> ?v * ?b"
  proof -
    have "(?x * ?c) * (1 - unit_roundoff) ^ 2 * ?b \<le> ?v * ?b"
      using v(1) bpos by (intro mult_right_mono) simp_all
    moreover have "(?x * ?c) * (1 - unit_roundoff) ^ 2 * ?b = ((?x * ?c) * ?b) * (1 - unit_roundoff) ^ 2"
      by (simp only: mult_ac)
    ultimately show ?thesis by (simp only: eb)
  qed
  have hi: "?v * ?b \<le> ?A * (1 + unit_roundoff) ^ 2"
  proof -
    have "?v * ?b \<le> (?x * ?c) * (1 + unit_roundoff) ^ 2 * ?b"
      using v(2) bpos by (intro mult_right_mono) simp_all
    moreover have "(?x * ?c) * (1 + unit_roundoff) ^ 2 * ?b = ((?x * ?c) * ?b) * (1 + unit_roundoff) ^ 2"
      by (simp only: mult_ac)
    ultimately show ?thesis by (simp only: eb)
  qed
  note A = product_bound [OF a c]
  note m = roundoff_margin [OF A]
  from lo hi m(1) m(2) show ?thesis by (simp only: abs_less_iff) linarith
qed

subsection \<open>Comparisons and truncations of rounded results\<close>

lemma ratio_less:
  fixes a b c d :: int
  assumes a: "0 < a" "a \<le> 2 ^ 25" and b: "0 < b" "b \<le> 2 ^ 25"
    and c: "0 < c" "c \<le> 2 ^ 25" and d: "0 < d" "d \<le> 2 ^ 25"
    and less: "a * d < c * b"
  shows "fl (of_int a / of_int b) < fl (of_int c / of_int d)"
proof -
  let ?x = "of_int a / of_int b :: rat" and ?y = "of_int c / of_int d :: rat"
  let ?M = "of_int (a * d) :: rat" and ?N = "of_int (c * b) :: rat"
  let ?bd = "of_int b * of_int d :: rat"
  have x: "0 < ?x" using a b by simp
  have y: "0 < ?y" using c d by simp
  have bd: "0 < ?bd" using b d by simp
  have xM: "?x * ?bd = ?M" using b by simp
  have yN: "?y * ?bd = ?N" using d by simp
  note M = product_bound [OF a d]
  have "a * d + 1 \<le> c * b" using less by simp
  then have "(of_int (a * d + 1) :: rat) \<le> of_int (c * b)" by (simp only: of_int_le_iff)
  then have MN: "?M + 1 \<le> ?N" by simp
  have u: "0 \<le> 1 - unit_roundoff" using unit_roundoff_range by simp
  have "?M * (2 * unit_roundoff) \<le> 2 ^ 50 * (2 * unit_roundoff)"
    using M(2) by (rule mult_right_mono) (simp add: unit_roundoff_def)
  also have "\<dots> < 1 - unit_roundoff" by (simp add: unit_roundoff_def)
  finally have "?M * (1 + unit_roundoff) < (?M + 1) * (1 - unit_roundoff)"
    by (simp add: algebra_simps)
  also have "\<dots> \<le> ?N * (1 - unit_roundoff)" using MN u by (rule mult_right_mono)
  finally have "(?x * ?bd) * (1 + unit_roundoff) < (?y * ?bd) * (1 - unit_roundoff)"
    by (simp only: xM yN)
  then have "(?x * (1 + unit_roundoff)) * ?bd < (?y * (1 - unit_roundoff)) * ?bd"
    by (simp only: mult_ac)
  then have "?x * (1 + unit_roundoff) < ?y * (1 - unit_roundoff)"
    using bd by (simp only: mult_less_cancel_right_pos)
  with fl_bounds(2) [OF x] fl_bounds(1) [OF y] show ?thesis by linarith
qed

lemma ratio_less_iff:
  fixes a b c d :: int
  assumes a: "0 < a" "a \<le> 2 ^ 25" and b: "0 < b" "b \<le> 2 ^ 25"
    and c: "0 < c" "c \<le> 2 ^ 25" and d: "0 < d" "d \<le> 2 ^ 25"
  shows "fl (of_int a / of_int b) < fl (of_int c / of_int d) \<longleftrightarrow> a * d < c * b"
proof
  assume "a * d < c * b"
  then show "fl (of_int a / of_int b) < fl (of_int c / of_int d)"
    by (rule ratio_less [OF a b c d])
next
  assume l: "fl (of_int a / of_int b) < fl (of_int c / of_int d)"
  show "a * d < c * b"
  proof (rule ccontr)
    assume "\<not> a * d < c * b"
    then consider "a * d = c * b" | "c * b < a * d" by linarith
    then show False
    proof cases
      case 1
      then have "(of_int (a * d) :: rat) = of_int (c * b)" by simp
      then have "(of_int a / of_int b :: rat) = of_int c / of_int d"
        using b d by (simp add: field_simps)
      with l show False by simp
    next
      case 2
      from ratio_less [OF c d a b 2] l show False by simp
    qed
  qed
qed

lemma div_rearrange:
  fixes n a b k m :: rat
  assumes "a \<noteq> 0" "b \<noteq> 0" "k \<noteq> 0"
  shows "n / ((a / b) * k) * m * a = (n * b) * (m / k)"
  using assms by (simp add: divide_simps)

lemma div_close:
  fixes n a b :: int
  assumes n: "0 < n" "n \<le> 2 ^ 25" and a: "0 < a" and b: "0 < b" "b \<le> 2 ^ 25"
  shows "\<bar>fl (of_int n / fl (of_int a / of_int b)) * of_int a - of_int (n * b)\<bar> < 1"
proof -
  let ?x = "of_int a / of_int b :: rat" and ?n = "of_int n :: rat" and ?a = "of_int a :: rat"
  let ?r = "fl ?x" and ?E = "of_int (n * b) :: rat"
  let ?w = "fl (?n / ?r)"
  have x: "0 < ?x" using a b by simp
  have npos: "0 < ?n" using n by simp
  have apos: "0 < ?a" using a by simp
  have bpos: "(0::rat) < of_int b" using b by simp
  note r = fl_bounds [OF x]
  have q: "0 < ?n / ?r" using npos r(3) by simp
  note w = fl_bounds [OF q]
  have um: "0 < 1 - unit_roundoff" and up: "0 < 1 + unit_roundoff"
    using unit_roundoff_range by simp_all
  have xlo: "0 < ?x * (1 - unit_roundoff)" using x um by (rule mult_pos_pos)
  have xhi: "0 < ?x * (1 + unit_roundoff)" using x up by (rule mult_pos_pos)
  have q_hi: "?n / ?r \<le> ?n / (?x * (1 - unit_roundoff))"
    by (rule divide_left_mono [OF r(1) less_imp_le [OF npos] mult_pos_pos [OF r(3) xlo]])
  have q_lo: "?n / (?x * (1 + unit_roundoff)) \<le> ?n / ?r"
    by (rule divide_left_mono [OF r(2) less_imp_le [OF npos] mult_pos_pos [OF xhi r(3)]])
  have e1: "?n / (?x * (1 - unit_roundoff)) * (1 + unit_roundoff) * ?a
      = ?E * ((1 + unit_roundoff) / (1 - unit_roundoff))"
    using apos bpos um by (simp add: div_rearrange)
  have e2: "?n / (?x * (1 + unit_roundoff)) * (1 - unit_roundoff) * ?a
      = ?E * ((1 - unit_roundoff) / (1 + unit_roundoff))"
    using apos bpos up by (simp add: div_rearrange)
  have hi: "?w * ?a \<le> ?E * ((1 + unit_roundoff) / (1 - unit_roundoff))"
  proof -
    have "?w \<le> ?n / ?r * (1 + unit_roundoff)" by (rule w(2))
    also have "\<dots> \<le> ?n / (?x * (1 - unit_roundoff)) * (1 + unit_roundoff)"
      using q_hi up by (intro mult_right_mono) simp_all
    finally have "?w * ?a \<le> ?n / (?x * (1 - unit_roundoff)) * (1 + unit_roundoff) * ?a"
      using apos by (intro mult_right_mono) simp_all
    then show ?thesis by (simp only: e1)
  qed
  have lo: "?E * ((1 - unit_roundoff) / (1 + unit_roundoff)) \<le> ?w * ?a"
  proof -
    have "?n / (?x * (1 + unit_roundoff)) * (1 - unit_roundoff) \<le> ?n / ?r * (1 - unit_roundoff)"
      using q_lo um by (intro mult_right_mono) simp_all
    also have "\<dots> \<le> ?w" by (rule w(1))
    finally have "?n / (?x * (1 + unit_roundoff)) * (1 - unit_roundoff) * ?a \<le> ?w * ?a"
      using apos by (intro mult_right_mono) simp_all
    then show ?thesis by (simp only: e2)
  qed
  note E = product_bound [OF n b]
  note m = roundoff_margin [OF E]
  from lo hi m(3) m(4) show ?thesis by (simp only: abs_less_iff) linarith
qed

lemma floor_of_close:
  fixes v :: rat and b A :: int
  assumes "\<bar>v * of_int b - of_int A\<bar> < 1" and b: "0 < b"
  shows "\<lfloor>v\<rfloor> * b \<le> A" and "A \<le> (\<lfloor>v\<rfloor> + 1) * b"
proof -
  have bpos: "(0::rat) < of_int b" using b by simp
  from assms(1) have lo: "of_int A - 1 < v * of_int b" and hi: "v * of_int b < of_int A + 1"
    by (simp_all add: abs_less_iff)
  have "of_int \<lfloor>v\<rfloor> * of_int b \<le> v * of_int b"
    using bpos by (intro mult_right_mono) simp_all
  with hi have "(of_int (\<lfloor>v\<rfloor> * b) :: rat) < of_int (A + 1)" by simp
  then have "\<lfloor>v\<rfloor> * b < A + 1" by (simp only: of_int_less_iff)
  then show "\<lfloor>v\<rfloor> * b \<le> A" by simp
  have "v < of_int (\<lfloor>v\<rfloor> + 1)" by linarith
  then have "v * of_int b < of_int (\<lfloor>v\<rfloor> + 1) * of_int b"
    using bpos by (simp only: mult_less_cancel_right_pos)
  with lo have "(of_int (A - 1) :: rat) < of_int ((\<lfloor>v\<rfloor> + 1) * b)" by simp
  then have "A - 1 < (\<lfloor>v\<rfloor> + 1) * b" by (simp only: of_int_less_iff)
  then show "A \<le> (\<lfloor>v\<rfloor> + 1) * b" by simp
qed

lemma greater_of_close:
  fixes v :: rat and b A t :: int
  assumes "\<bar>v * of_int b - of_int A\<bar> < 1" and b: "0 < b" and t: "t * b < A"
  shows "of_int t < v"
proof -
  have bpos: "(0::rat) < of_int b" using b by simp
  from assms(1) have lo: "of_int A - 1 < v * of_int b" by (simp add: abs_less_iff)
  from t have "t * b \<le> A - 1" by simp
  then have "(of_int (t * b) :: rat) \<le> of_int (A - 1)" by (simp only: of_int_le_iff)
  with lo have "of_int t * of_int b < v * of_int b" by simp
  then show ?thesis using bpos by (simp only: mult_less_cancel_right_pos)
qed

lemma py_int_pos: "0 \<le> x \<Longrightarrow> py_int x = \<lfloor>x\<rfloor>"
  by (simp add: py_int_def)

lemma scaled_dim:
  fixes a b c :: int
  assumes a: "0 < a" "a \<le> 2 ^ 25" and b: "0 < b" and c: "0 < c" "c \<le> 2 ^ 25"
  defines "v \<equiv> fl (fl (of_int a / of_int b) * of_int c)"
  shows "py_int v * b \<le> a * c" and "a * c \<le> (py_int v + 1) * b" and "0 \<le> py_int v"
    and "\<And>t. t * b < a * c \<Longrightarrow> of_int t < v"
proof -
  have close: "\<bar>v * of_int b - of_int (a * c)\<bar> < 1"
    unfolding v_def by (rule scale_close [OF a b c])
  have "0 < fl (of_int a / of_int b) * (of_int c :: rat)"
    using a b c by (intro mult_pos_pos fl_bounds(3)) simp_all
  then have v: "0 < v" unfolding v_def by (rule fl_bounds(3))
  then have pi: "py_int v = \<lfloor>v\<rfloor>" by (simp add: py_int_def)
  show "py_int v * b \<le> a * c" unfolding pi by (rule floor_of_close(1) [OF close b])
  show "a * c \<le> (py_int v + 1) * b" unfolding pi by (rule floor_of_close(2) [OF close b])
  show "0 \<le> py_int v" unfolding pi using v by simp
  show "\<And>t. t * b < a * c \<Longrightarrow> of_int t < v"
    by (rule greater_of_close [OF close b])
qed

lemma divided_dim:
  fixes n a b :: int
  assumes n: "0 < n" "n \<le> 2 ^ 25" and a: "0 < a" and b: "0 < b" "b \<le> 2 ^ 25"
  defines "v \<equiv> fl (of_int n / fl (of_int a / of_int b))"
  shows "py_int v * a \<le> n * b" and "n * b \<le> (py_int v + 1) * a" and "0 \<le> py_int v"
proof -
  have close: "\<bar>v * of_int a - of_int (n * b)\<bar> < 1"
    unfolding v_def by (rule div_close [OF n a b])
  have "0 < fl (of_int a / of_int b :: rat)" using a b by (intro fl_bounds(3)) simp
  then have "0 < (of_int n :: rat) / fl (of_int a / of_int b)" using n by simp
  then have v: "0 < v" unfolding v_def by (rule fl_bounds(3))
  then have pi: "py_int v = \<lfloor>v\<rfloor>" by (simp add: py_int_def)
  show "py_int v * a \<le> n * b" unfolding pi by (rule floor_of_close(1) [OF close a])
  show "n * b \<le> (py_int v + 1) * a" unfolding pi by (rule floor_of_close(2) [OF close a])
  show "0 \<le> py_int v" unfolding pi using v by simp
qed

lemma fit_cases:
  fixes ox oy tx ty :: int
  assumes ox: "0 < ox" "ox \<le> 2 ^ 25" and oy: "0 < oy" "oy \<le> 2 ^ 25"
    and tx: "0 < tx" "tx \<le> 2 ^ 25" and ty: "0 < ty" "ty \<le> 2 ^ 25"
  shows "new_size_keep_aspect_ratio (ox, oy) (tx, ty) rt =
     (if ox * ty < tx * oy
      then (if rt = ''inner''
            then Inr (py_int (fl (fl (of_int ty / of_int oy) * of_int ox)), ty)
            else Inr (tx, py_int (fl (fl (of_int tx / of_int ox) * of_int oy))))
      else if tx * oy < ox * ty
      then (if rt = ''inner''
            then Inr (tx, py_int (fl (fl (of_int tx / of_int ox) * of_int oy)))
            else Inr (py_int (fl (fl (of_int ty / of_int oy) * of_int ox)), ty))
      else Inr (tx, ty))"
proof -
  have f: "py_float ox = of_int ox" "py_float oy = of_int oy" "py_float tx = of_int tx"
    "py_float ty = of_int ty"
    using assms by (simp_all add: py_float_exact)
  have r1: "fl (of_int ox / of_int oy) < fl (of_int tx / of_int ty) \<longleftrightarrow> ox * ty < tx * oy"
    by (rule ratio_less_iff [OF ox oy tx ty])
  have r2: "fl (of_int tx / of_int ty) < fl (of_int ox / of_int oy) \<longleftrightarrow> tx * oy < ox * ty"
    by (rule ratio_less_iff [OF tx ty ox oy])
  have g1: "ox * ty < tx * oy \<Longrightarrow> of_int ty < fl (fl (of_int tx / of_int ox) * of_int oy)"
    using scaled_dim(4) [OF tx ox(1) oy, of ty] by (simp add: mult.commute)
  have g2: "tx * oy < ox * ty \<Longrightarrow> of_int tx < fl (fl (of_int ty / of_int oy) * of_int ox)"
    using scaled_dim(4) [OF ty oy(1) ox, of tx] by (simp add: mult.commute)
  have nz: "(of_int ox :: rat) \<noteq> 0" "(of_int oy :: rat) \<noteq> 0" "(of_int ty :: rat) \<noteq> 0"
    using ox oy ty by simp_all
  show ?thesis
    unfolding new_size_keep_aspect_ratio_def Let_def fst_conv snd_conv f r1 r2
    using g1 g2 nz by (simp only: if_False if_True simp_thms split: if_splits) auto
qed

subsection \<open>Fit and crop\<close>

lemma int_less_cancel: "(a::int) * c < b * c \<Longrightarrow> 0 < c \<Longrightarrow> a < b"
  by (simp add: mult_less_cancel_right_pos)

text \<open>
  C8 (as amended). For source and target sizes between 1 and \<open>2\<^sup>2\<^sup>5\<close> in each dimension, the
  inner fit returns a size within the target: one dimension is the target's, and the other is
  the exact proportional value rounded down, or one less than that value when it is an integer
  (the float product can fall just below it). Source 1920x1080 into 400x300 gives (400, 225).
\<close>

theorem fit_inner:
  fixes ox oy tx ty :: int
  assumes ox: "0 < ox" "ox \<le> 2 ^ 25" and oy: "0 < oy" "oy \<le> 2 ^ 25"
    and tx: "0 < tx" "tx \<le> 2 ^ 25" and ty: "0 < ty" "ty \<le> 2 ^ 25"
  shows "(\<exists>w h. new_size_keep_aspect_ratio (ox, oy) (tx, ty) ''inner'' = Inr (w, h)
           \<and> 0 \<le> w \<and> w \<le> tx \<and> 0 \<le> h \<and> h \<le> ty
           \<and> ((w = tx \<and> h * ox \<le> tx * oy \<and> tx * oy \<le> (h + 1) * ox)
              \<or> (h = ty \<and> w * oy \<le> ty * ox \<and> ty * ox \<le> (w + 1) * oy)))
         \<and> new_size_keep_aspect_ratio (1920, 1080) (400, 300) ''inner'' = Inr (400, 225)"
proof
  define W where "W = py_int (fl (fl (of_int ty / of_int oy) * of_int ox))"
  define H where "H = py_int (fl (fl (of_int tx / of_int ox) * of_int oy))"
  note w = scaled_dim(1-3) [OF ty oy(1) ox, folded W_def]
  note h = scaled_dim(1-3) [OF tx ox(1) oy, folded H_def]
  note c = fit_cases [OF assms, of "''inner''", folded W_def H_def]
  consider (wide) "ox * ty < tx * oy" | (narrow) "tx * oy < ox * ty" | (same) "ox * ty = tx * oy"
    by linarith
  then show "\<exists>w h. new_size_keep_aspect_ratio (ox, oy) (tx, ty) ''inner'' = Inr (w, h)
           \<and> 0 \<le> w \<and> w \<le> tx \<and> 0 \<le> h \<and> h \<le> ty
           \<and> ((w = tx \<and> h * ox \<le> tx * oy \<and> tx * oy \<le> (h + 1) * ox)
              \<or> (h = ty \<and> w * oy \<le> ty * ox \<and> ty * ox \<le> (w + 1) * oy))"
  proof cases
    case wide
    with w(1) have "W * oy < tx * oy" by (simp add: mult.commute)
    then have "W < tx" using oy(1) by (rule int_less_cancel)
    with wide w ty c show ?thesis by simp
  next
    case narrow
    with h(1) have "H * ox < ty * ox" by (simp add: mult.commute)
    then have "H < ty" using ox(1) by (rule int_less_cancel)
    with narrow h tx c show ?thesis by simp
  next
    case same
    then have "ty * ox \<le> tx * oy" "tx * oy \<le> (ty + 1) * ox"
      using ox(1) by (simp_all add: algebra_simps)
    with same tx ty c show ?thesis by simp
  qed
  show "new_size_keep_aspect_ratio (1920, 1080) (400, 300) ''inner'' = Inr (400, 225)"
    by code_simp
qed

theorem fit_inner_witness:
  "\<exists>w h. new_size_keep_aspect_ratio (1920, 1080) (400, 300) ''inner'' = Inr (w, h)
           \<and> 0 \<le> w \<and> w \<le> 400 \<and> 0 \<le> h \<and> h \<le> 300
           \<and> ((w = 400 \<and> h * 1920 \<le> 400 * 1080 \<and> 400 * 1080 \<le> (h + 1) * 1920)
              \<or> (h = 300 \<and> w * 1080 \<le> 300 * 1920 \<and> 300 * 1920 \<le> (w + 1) * 1080))"
  by (rule conjunct1 [OF fit_inner [of 1920 1080 400 300]]) simp_all

text \<open>
  C8 as stated fails: a square source of 11x11 fitted into 15x16 gives (15, 14), although the
  proportional height is exactly 15: \<^verbatim>\<open>15 / 11.0 * 11\<close> is 14.999999999999998.
\<close>

theorem fit_inner_counterexample:
  "new_size_keep_aspect_ratio (11, 11) (15, 16) ''inner'' = Inr (15, 14)"
  by code_simp

text \<open>
  C9 (as amended). For source and target sizes between 1 and \<open>2\<^sup>2\<^sup>5\<close> in each dimension, the
  outer fit returns a size that covers the target: one dimension is the target's, and the
  other is the exact proportional value rounded down, or one less than that value when it is
  an integer. Source 1920x1080 over 400x300 gives (533, 300).
\<close>

theorem fit_outer:
  fixes ox oy tx ty :: int
  assumes ox: "0 < ox" "ox \<le> 2 ^ 25" and oy: "0 < oy" "oy \<le> 2 ^ 25"
    and tx: "0 < tx" "tx \<le> 2 ^ 25" and ty: "0 < ty" "ty \<le> 2 ^ 25"
  shows "(\<exists>w h. new_size_keep_aspect_ratio (ox, oy) (tx, ty) ''outer'' = Inr (w, h)
           \<and> tx \<le> w \<and> ty \<le> h
           \<and> ((w = tx \<and> h * ox \<le> tx * oy \<and> tx * oy \<le> (h + 1) * ox)
              \<or> (h = ty \<and> w * oy \<le> ty * ox \<and> ty * ox \<le> (w + 1) * oy)))
         \<and> new_size_keep_aspect_ratio (1920, 1080) (400, 300) ''outer'' = Inr (533, 300)"
proof
  define W where "W = py_int (fl (fl (of_int ty / of_int oy) * of_int ox))"
  define H where "H = py_int (fl (fl (of_int tx / of_int ox) * of_int oy))"
  note w = scaled_dim(1-3) [OF ty oy(1) ox, folded W_def]
  note h = scaled_dim(1-3) [OF tx ox(1) oy, folded H_def]
  note c = fit_cases [OF assms, of "''outer''", folded W_def H_def]
  consider (wide) "ox * ty < tx * oy" | (narrow) "tx * oy < ox * ty" | (same) "ox * ty = tx * oy"
    by linarith
  then show "\<exists>w h. new_size_keep_aspect_ratio (ox, oy) (tx, ty) ''outer'' = Inr (w, h)
           \<and> tx \<le> w \<and> ty \<le> h
           \<and> ((w = tx \<and> h * ox \<le> tx * oy \<and> tx * oy \<le> (h + 1) * ox)
              \<or> (h = ty \<and> w * oy \<le> ty * ox \<and> ty * ox \<le> (w + 1) * oy))"
  proof cases
    case wide
    with h(2) have "ty * ox < (H + 1) * ox" by (simp add: mult.commute)
    then have "ty < H + 1" using ox(1) by (rule int_less_cancel)
    with wide h c show ?thesis by simp
  next
    case narrow
    with w(2) have "tx * oy < (W + 1) * oy" by (simp add: mult.commute)
    then have "tx < W + 1" using oy(1) by (rule int_less_cancel)
    with narrow w c show ?thesis by simp
  next
    case same
    then have "ty * ox \<le> tx * oy" "tx * oy \<le> (ty + 1) * ox"
      using ox(1) by (simp_all add: algebra_simps)
    with same c show ?thesis by simp
  qed
  show "new_size_keep_aspect_ratio (1920, 1080) (400, 300) ''outer'' = Inr (533, 300)"
    by code_simp
qed

theorem fit_outer_witness:
  "\<exists>w h. new_size_keep_aspect_ratio (1920, 1080) (400, 300) ''outer'' = Inr (w, h)
           \<and> 400 \<le> w \<and> 300 \<le> h
           \<and> ((w = 400 \<and> h * 1920 \<le> 400 * 1080 \<and> 400 * 1080 \<le> (h + 1) * 1920)
              \<or> (h = 300 \<and> w * 1080 \<le> 300 * 1920 \<and> 300 * 1920 \<le> (w + 1) * 1080))"
  by (rule conjunct1 [OF fit_outer [of 1920 1080 400 300]]) simp_all

text \<open>
  C9 as stated fails: a 3x27 source fitted over 13x1 gives (13, 116), which has not the
  aspect ratio of the source, although (13, 117) has it exactly.
\<close>

theorem fit_outer_counterexample:
  "new_size_keep_aspect_ratio (3, 27) (13, 1) ''outer'' = Inr (13, 116)
   \<and> (13::int) * 27 = 117 * 3"
  by code_simp

lemma crop_cases:
  fixes ox oy tx ty :: int
  assumes ox: "0 < ox" "ox \<le> 2 ^ 25" and oy: "0 < oy" "oy \<le> 2 ^ 25"
    and tx: "0 < tx" "tx \<le> 2 ^ 25" and ty: "0 < ty" "ty \<le> 2 ^ 25"
  shows "new_size_by_croping_ratio (ox, oy) (tx, ty) ct =
     (let cw = (if ox * ty < tx * oy then ox
                else if tx * oy < ox * ty
                then py_int (fl (fl (of_int tx / of_int ty) * of_int oy))
                else ox);
          ch = (if ox * ty < tx * oy
                then py_int (fl (of_int ox / fl (of_int tx / of_int ty)))
                else oy);
          x = (if suffix ''left'' ct then 0
               else if suffix ''center'' ct then (ox - cw) div 2
               else if suffix ''right'' ct then ox - cw
               else 0);
          y = (if prefix ''top'' ct then 0
               else if prefix ''center'' ct then (oy - ch) div 2
               else if prefix ''bottom'' ct then oy - ch
               else 0)
      in Inr (x, y, cw + x, ch + y))"
proof -
  have f: "py_float ox = of_int ox" "py_float oy = of_int oy" "py_float tx = of_int tx"
    "py_float ty = of_int ty"
    using assms by (simp_all add: py_float_exact)
  have r1: "fl (of_int ox / of_int oy) < fl (of_int tx / of_int ty) \<longleftrightarrow> ox * ty < tx * oy"
    by (rule ratio_less_iff [OF ox oy tx ty])
  have r2: "fl (of_int tx / of_int ty) < fl (of_int ox / of_int oy) \<longleftrightarrow> tx * oy < ox * ty"
    by (rule ratio_less_iff [OF tx ty ox oy])
  have "0 < fl (of_int tx / of_int ty :: rat)" using tx ty by (intro fl_bounds(3)) simp
  then have rz: "fl (of_int tx / of_int ty :: rat) \<noteq> 0" by simp
  have nz: "(of_int oy :: rat) \<noteq> 0" "(of_int ty :: rat) \<noteq> 0"
    using oy ty by simp_all
  show ?thesis
    unfolding new_size_by_croping_ratio_def Let_def fst_conv snd_conv f r1 r2
    using rz nz by simp
qed

text \<open>
  C10 (as amended). For source and target sizes between 1 and \<open>2\<^sup>2\<^sup>5\<close> in each dimension and
  every crop type (the nine anchors and any other string), the crop rectangle lies in the
  source: \<open>0 \<le> x1 \<le> x2 \<le> source_w\<close> and \<open>0 \<le> y1 \<le> y2 \<le> source_h\<close>. It is not empty
  (\<open>x1 < x2\<close> and \<open>y1 < y2\<close>) when \<open>target_w < source_w * target_h\<close> and
  \<open>target_h < source_h * target_w\<close>.
\<close>

theorem crop_rectangle_bounds:
  fixes ox oy tx ty :: int
  assumes ox: "0 < ox" "ox \<le> 2 ^ 25" and oy: "0 < oy" "oy \<le> 2 ^ 25"
    and tx: "0 < tx" "tx \<le> 2 ^ 25" and ty: "0 < ty" "ty \<le> 2 ^ 25"
  shows "\<exists>x1 y1 x2 y2. new_size_by_croping_ratio (ox, oy) (tx, ty) crop_type = Inr (x1, y1, x2, y2)
           \<and> 0 \<le> x1 \<and> x1 \<le> x2 \<and> x2 \<le> ox \<and> 0 \<le> y1 \<and> y1 \<le> y2 \<and> y2 \<le> oy
           \<and> (tx < ox * ty \<and> ty < oy * tx \<longrightarrow> x1 < x2 \<and> y1 < y2)"
proof -
  define W where "W = py_int (fl (fl (of_int tx / of_int ty) * of_int oy))"
  define H where "H = py_int (fl (of_int ox / fl (of_int tx / of_int ty)))"
  define cw where "cw = (if ox * ty < tx * oy then ox else if tx * oy < ox * ty then W else ox)"
  define ch where "ch = (if ox * ty < tx * oy then H else oy)"
  define x where "x = (if suffix ''left'' crop_type then 0
               else if suffix ''center'' crop_type then (ox - cw) div 2
               else if suffix ''right'' crop_type then ox - cw
               else 0)"
  define y where "y = (if prefix ''top'' crop_type then 0
               else if prefix ''center'' crop_type then (oy - ch) div 2
               else if prefix ''bottom'' crop_type then oy - ch
               else 0)"
  note w = scaled_dim(1-3) [OF tx ty(1) oy, folded W_def]
  note h = divided_dim [OF ox tx(1) ty, folded H_def]
  have res: "new_size_by_croping_ratio (ox, oy) (tx, ty) crop_type = Inr (x, y, cw + x, ch + y)"
    unfolding crop_cases [OF assms] Let_def x_def y_def cw_def ch_def W_def H_def by simp
  have cw: "0 \<le> cw" "cw \<le> ox" "ty < oy * tx \<longrightarrow> 0 < cw"
  proof -
    show "0 \<le> cw" using ox(1) w(3) by (simp add: cw_def)
    show "cw \<le> ox"
    proof (cases "tx * oy < ox * ty")
      case True
      with w(1) have "W * ty < ox * ty" by simp
      then have "W < ox" using ty(1) by (rule int_less_cancel)
      then show ?thesis by (simp add: cw_def)
    next
      case False
      then show ?thesis by (simp add: cw_def)
    qed
    show "ty < oy * tx \<longrightarrow> 0 < cw"
    proof
      assume "ty < oy * tx"
      with w(2) have "1 * ty < (W + 1) * ty" by (simp add: mult.commute)
      then have "1 < W + 1" using ty(1) by (rule int_less_cancel)
      then show "0 < cw" using ox(1) by (simp add: cw_def)
    qed
  qed
  have ch: "0 \<le> ch" "ch \<le> oy" "tx < ox * ty \<longrightarrow> 0 < ch"
  proof -
    show "0 \<le> ch" using oy(1) h(3) by (simp add: ch_def)
    show "ch \<le> oy"
    proof (cases "ox * ty < tx * oy")
      case True
      with h(1) have "H * tx < oy * tx" by (simp add: mult.commute)
      then have "H < oy" using tx(1) by (rule int_less_cancel)
      then show ?thesis by (simp add: ch_def)
    next
      case False
      then show ?thesis by (simp add: ch_def)
    qed
    show "tx < ox * ty \<longrightarrow> 0 < ch"
    proof
      assume "tx < ox * ty"
      with h(2) have "1 * tx < (H + 1) * tx" by simp
      then have "1 < H + 1" using tx(1) by (rule int_less_cancel)
      then show "0 < ch" using oy(1) by (simp add: ch_def)
    qed
  qed
  have x: "0 \<le> x" "cw + x \<le> ox" using cw(1,2) by (auto simp: x_def)
  have y: "0 \<le> y" "ch + y \<le> oy" using ch(1,2) by (auto simp: y_def)
  from res x y cw ch show ?thesis by auto
qed

theorem crop_rectangle_bounds_witness:
  "\<exists>x1 y1 x2 y2. new_size_by_croping_ratio (1920, 1080) (4, 3) ''center'' = Inr (x1, y1, x2, y2)
           \<and> 0 \<le> x1 \<and> x1 < x2 \<and> x2 \<le> 1920 \<and> 0 \<le> y1 \<and> y1 < y2 \<and> y2 \<le> 1080"
  using crop_rectangle_bounds [of 1920 1080 4 3 "''center''"] by fastforce

text \<open>
  C10 as stated fails: cropping a 1x1000 source to the ratio 1000:1 keeps no row, and the
  rectangle is empty (\<open>y1 = y2 = 500\<close>).
\<close>

theorem crop_rectangle_counterexample:
  "new_size_by_croping_ratio (1, 1000) (1000, 1) ''center'' = Inr (0, 500, 1, 500)"
  by code_simp


end
